theory Spec2Isabelle
  imports Main "HOL-Library.AList" "HOL-Library.Word"
begin

section \<open>The column-per-resource HDF5 asset registry (databroker/assets/column\_hdf5.py)\<close>

text \<open>
  The module stores the datum keyword arguments of one resource in one HDF5 file,
  one dataset per keyword plus a dataset \<open>datum_id\<close> of generated local ids.
  The embedding makes the effects explicit:
  \<^item> the file system is the set of the directories that exist and a map from path to
    file; paths are compared as strings; a file is the list of its named
    one-dimensional datasets, each with its dtype;
  \<^item> \<open>uuid.uuid4()\<close> is a stream \<open>uuid4 :: nat \<Rightarrow> string\<close> together with the
    number of ids drawn so far, kept in the state;
  \<^item> the exception the caller is handling, if any, is part of the state: a bare
    \<open>raise\<close> raises it again;
  \<^item> every \<open>raise\<close> is a value \<open>Inl e\<close>, returned together with the state reached
    when the exception leaves the function;
  \<^item> the datum cache is a map from resource uid to the table read from the file.
  Arguments that the functions never read (\<open>logger\<close>, \<open>known_spec\<close>, \<open>resource_col\<close>, the
  caller's datum ids) keep their place and have a type of their own.
\<close>

subsection \<open>Values, dtypes, errors, dictionaries\<close>

text \<open>
  The values of keyword arguments and of table cells. \<open>IntV i\<close> is an integer that
  numpy holds as \<open>int64\<close>, read with \<open>sint\<close>; Python integers outside that range are
  not values of the model. \<open>StrV s\<close> is a \<open>str\<close> or the \<open>bytes\<close> of one.
  \<open>FloatV (Some i)\<close> is the \<open>float64\<close> that numpy converts the integer \<open>i\<close> to,
  \<open>FloatV None\<close> is \<open>NaN\<close>; other floats are not values of the model.
  \<open>Series vs\<close> is the \<open>pandas.Series\<close> of the values \<open>vs\<close>.
\<close>

type_synonym int64 = "64 word"

datatype val = IntV int64 | StrV string | FloatV "int64 option" | Series "val list"

text \<open>The numpy dtypes that occur: \<open>Bytes n\<close> is the fixed-width \<open>S\<close>\<open>n\<close>.\<close>

datatype dtype = Int64 | Float64 | Bytes nat | Object

datatype error = DatumNotFound | RuntimeError | KeyError | ValueError | TypeError
  | FileNotFoundError | AttributeError

text \<open>A Python \<open>dict\<close> in insertion order.\<close>

type_synonym 'a dict = "(string \<times> 'a) list"

text \<open>An \<open>h5py.Dataset\<close> of one dimension, and an open \<open>h5py.File\<close>: its datasets by name.\<close>

datatype dataset = Dataset (dset_dtype: dtype) (dset_data: "val list")

type_synonym h5file = "dataset dict"

record world =
  dirs :: "string set"
  files :: "string \<rightharpoonup> h5file"
  drawn :: nat
  handling :: "error option"

text \<open>
  A \<open>pandas.DataFrame\<close>: the number of rows and the columns. A column of dtype \<open>int64\<close>
  is a list of \<open>IntV\<close>, a column of dtype \<open>float64\<close> a list of \<open>FloatV\<close>, any other
  list of cells is a column of dtype \<open>object\<close>.
\<close>

record dataframe =
  nrows :: nat
  columns :: "val list dict"

text \<open>The table \<open>retrieve\<close> caches: the frame after \<open>set_index('datum_id')\<close>.\<close>

record frame =
  index :: "string list"
  cols :: "dataset dict"

record resource_doc =
  uid :: string
  spec :: string
  root :: string
  resource_path :: string
  resource_kwargs :: "val dict"

datatype doc_or_uid = Uid string | Doc resource_doc

record datum =
  resource :: string
  datum_id :: string
  datum_kwargs :: "val dict"

subsection \<open>Library functions the module calls\<close>

text \<open>\<open>str.partition(sep)\<close> for a one-character separator.\<close>

fun str_partition :: "char \<Rightarrow> string \<Rightarrow> string \<times> string \<times> string" where
  "str_partition sep [] = ([], [], [])"
| "str_partition sep (c # cs) =
     (if c = sep then ([], [sep], cs)
      else (case str_partition sep cs of (h, s, t) \<Rightarrow> (c # h, s, t)))"

text \<open>The keys of a list of records in the order of their first occurrence.\<close>

fun first_seen :: "string list \<Rightarrow> string list" where
  "first_seen [] = []"
| "first_seen (k # ks) = k # removeAll k (first_seen ks)"

fun is_IntV :: "val \<Rightarrow> bool" where
  "is_IntV (IntV i) = True"
| "is_IntV v = False"

fun is_FloatV :: "val \<Rightarrow> bool" where
  "is_FloatV (FloatV x) = True"
| "is_FloatV v = False"

text \<open>The dtype pandas gives a column of cells.\<close>

definition column_dtype :: "val list \<Rightarrow> dtype" where
  "column_dtype vs =
     (if vs \<noteq> [] \<and> list_all is_IntV vs then Int64
      else if vs \<noteq> [] \<and> list_all is_FloatV vs then Float64
      else Object)"

text \<open>
  One column of \<open>pd.DataFrame(records)\<close> from the entries the records have for its key
  (\<open>None\<close> where a record has none): integers alone stay integers; integers, floats and
  missing entries together become floats, a missing entry \<open>NaN\<close>; with anything else the
  column holds the objects as they are.
\<close>

fun cell_object :: "val option \<Rightarrow> val" where
  "cell_object None = FloatV None"
| "cell_object (Some v) = v"

fun cell_float :: "val option \<Rightarrow> val" where
  "cell_float (Some (IntV i)) = FloatV (Some i)"
| "cell_float c = cell_object c"

fun is_int_cell :: "val option \<Rightarrow> bool" where
  "is_int_cell (Some (IntV i)) = True"
| "is_int_cell c = False"

fun is_numeric_cell :: "val option \<Rightarrow> bool" where
  "is_numeric_cell None = True"
| "is_numeric_cell (Some (IntV i)) = True"
| "is_numeric_cell (Some (FloatV x)) = True"
| "is_numeric_cell c = False"

definition column_of :: "val option list \<Rightarrow> val list" where
  "column_of cs =
     (if list_all is_int_cell cs then map cell_object cs
      else if list_all is_numeric_cell cs then map cell_float cs
      else map cell_object cs)"

text \<open>
  \<open>pd.DataFrame(records)\<close> for a list of dicts: one column per key, one row per record.
\<close>

definition DataFrame :: "val dict list \<Rightarrow> dataframe" where
  "DataFrame records =
     \<lparr>nrows = length records,
      columns = map (\<lambda>k. (k, column_of (map (\<lambda>r. map_of r k) records)))
                    (first_seen (concat (map (map fst) records)))\<rparr>"

text \<open>
  \<open>fout.create_dataset(k, (len(v),), dtype=v.dtype, data=v, ...)\<close> for each column in turn.
  h5py has no HDF5 type for the dtype \<open>object\<close> and refuses a name that the file
  already has; the datasets created before stay in the file.
\<close>

fun create_datasets :: "h5file \<Rightarrow> dataset dict \<Rightarrow> error option \<times> h5file" where
  "create_datasets fout [] = (None, fout)"
| "create_datasets fout ((k, v) # kvs) =
     (if dset_dtype v = Object then (Some TypeError, fout)
      else if k \<in> fst ` set fout then (Some ValueError, fout)
      else create_datasets (fout @ [(k, v)]) kvs)"

text \<open>
  \<open>np.array([d.encode('utf-8') for d in d_ids])\<close>: bytes of the width of the longest id;
  numpy makes the empty array \<open>float64\<close>.
\<close>

definition ids_array :: "string list \<Rightarrow> dataset" where
  "ids_array d_ids =
     Dataset (if d_ids = [] then Float64
              else Bytes (foldr (\<lambda>d n. max (length d) n) d_ids 1))
             (map StrV d_ids)"

text \<open>
  Modelled from the spec: \<open>append\<close> of \<open>databroker.headersource.hdf5\<close> is not part of
  the sources at hand; "appends one row to every existing column": the dataset grows by
  the given values at its end.
\<close>

definition append :: "val list \<Rightarrow> val list \<Rightarrow> val list" where
  "append dataset data = dataset @ data"

text \<open>
  What a dataset of a dtype stores for a value written to it: an integer as it is or as
  a float, the float of an integer as that integer, bytes cut to the width of the
  dataset; \<open>None\<close> where the write fails.
\<close>

fun convert :: "dtype \<Rightarrow> val \<Rightarrow> val option" where
  "convert Int64 (IntV i) = Some (IntV i)"
| "convert Int64 (FloatV (Some i)) = Some (IntV i)"
| "convert Float64 (IntV i) = Some (FloatV (Some i))"
| "convert Float64 (FloatV x) = Some (FloatV x)"
| "convert (Bytes n) (StrV s) = Some (StrV (take n s))"
| "convert t v = None"

text \<open>\<open>append(dataset, [v])\<close> on a dataset of the file.\<close>

definition h5_append :: "dataset \<Rightarrow> val \<Rightarrow> dataset option" where
  "h5_append dataset v =
     (case convert (dset_dtype dataset) v of
        None \<Rightarrow> None
      | Some v' \<Rightarrow> Some (Dataset (dset_dtype dataset) (append (dset_data dataset) [v'])))"

text \<open>
  Modelled from the spec: \<open>doc_or_uid_to_uid\<close> of \<open>databroker.assets.core\<close> is not part
  of the sources at hand; it "resolves \<open>resource\<close> to a \<open>uid\<close>".
\<close>

fun doc_or_uid_to_uid :: "doc_or_uid \<Rightarrow> string" where
  "doc_or_uid_to_uid (Uid u) = u"
| "doc_or_uid_to_uid (Doc d) = uid d"

text \<open>
  The file of a resource as \<open>bulk_register_datum_table\<close> and \<open>retrieve\<close> name it:
  \<open>f'{datum_col}/{resource_uid}.h5'\<close>.
\<close>

definition h5_path :: "string \<Rightarrow> string \<Rightarrow> string" where
  "h5_path datum_col resource_uid = datum_col @ ''/'' @ resource_uid @ ''.h5''"

text \<open>
  The directory of a path: what stands before its last \<open>/\<close>. \<open>h5py.File(path, 'w')\<close>
  creates the file but no directory: it fails when the directory of the path does not
  exist, as it does for a uid with a \<open>/\<close> in a store without subdirectories.
\<close>

definition dirname :: "string \<Rightarrow> string" where
  "dirname path = rev (drop 1 (dropWhile (\<lambda>c. c \<noteq> CHR ''/'') (rev path)))"

text \<open>
  \<open>Path(datum_col) / Path(f'{resource}.h5')\<close>, the path \<open>insert_datum\<close> tests and opens.
  \<open>pathlib\<close> drops an empty \<open>datum_col\<close> and drops \<open>datum_col\<close> before a resource that begins
  with \<open>/\<close>: the path is then another file than the one of \<open>h5_path\<close>. In every other
  case it names the file of \<open>h5_path\<close> (a repeated or final \<open>/\<close> and a part \<open>.\<close> that
  \<open>pathlib\<close> removes change the string and not the file).
\<close>

definition pathlib_path :: "string \<Rightarrow> string \<Rightarrow> string" where
  "pathlib_path datum_col resource_uid =
     (if datum_col = [] \<or> take 1 resource_uid = ''/'' then resource_uid @ ''.h5''
      else h5_path datum_col resource_uid)"

subsection \<open>bulk\_register\_datum\_table\<close>

definition bulk_register_datum_table ::
  "(nat \<Rightarrow> string) \<Rightarrow> string \<Rightarrow> 'rc \<Rightarrow> string \<Rightarrow> dataframe \<Rightarrow> bool \<Rightarrow> world
     \<Rightarrow> (error + string list) \<times> world" where
  "bulk_register_datum_table uuid4 datum_col resource_col resource_uid dkwargs_table validate w =
     (if validate
      then (Inl (case handling w of None \<Rightarrow> RuntimeError | Some e \<Rightarrow> e), w)
      else
        let d_ids = map uuid4 [drawn w ..< drawn w + nrows dkwargs_table];
            datum_ids = map (\<lambda>d. resource_uid @ ''/'' @ d) d_ids;
            w1 = w\<lparr>drawn := drawn w + nrows dkwargs_table\<rparr>
        in if dirname (h5_path datum_col resource_uid) \<notin> dirs w
           then (Inl FileNotFoundError, w1)
           else
             let written = create_datasets []
                   (map (\<lambda>kv. (fst kv, Dataset (column_dtype (snd kv)) (snd kv)))
                        (columns dkwargs_table)
                    @ [(''datum_id'', ids_array d_ids)]);
                 w' = w1\<lparr>files := (files w)(h5_path datum_col resource_uid \<mapsto> snd written)\<rparr>
             in (case fst written of Some e \<Rightarrow> (Inl e, w') | None \<Rightarrow> (Inr datum_ids, w')))"

subsection \<open>retrieve\<close>

fun same_length :: "val list list \<Rightarrow> bool" where
  "same_length [] = True"
| "same_length (v # vs) = list_all (\<lambda>u. length u = length v) vs"

fun decode_bytes :: "val list \<Rightarrow> string list option" where
  "decode_bytes [] = Some []"
| "decode_bytes (StrV s # vs) =
     (case decode_bytes vs of Some ss \<Rightarrow> Some (s # ss) | None \<Rightarrow> None)"
| "decode_bytes (v # vs) = None"

text \<open>
  \<open>df['datum_id'].str.decode('utf-8')\<close>: the \<open>.str\<close> accessor exists for a column of
  bytes only.
\<close>

fun decode :: "dataset \<Rightarrow> string list option" where
  "decode (Dataset (Bytes n) vs) = decode_bytes vs"
| "decode d = None"

text \<open>
  Lines 71--74: open the file for reading, build the frame from all datasets, decode the
  \<open>datum_id\<close> column and make it the index.
\<close>

definition read_table :: "(string \<rightharpoonup> h5file) \<Rightarrow> string \<Rightarrow> error + frame" where
  "read_table fs path =
     (case fs path of
        None \<Rightarrow> Inl FileNotFoundError
      | Some fin \<Rightarrow>
          if \<not> same_length (map (\<lambda>kv. dset_data (snd kv)) fin) then Inl ValueError
          else (case map_of fin ''datum_id'' of
                  None \<Rightarrow> Inl KeyError
                | Some ids \<Rightarrow>
                    (case decode ids of
                       None \<Rightarrow> Inl AttributeError
                     | Some idx \<Rightarrow>
                         Inr \<lparr>index = idx,
                              cols = filter (\<lambda>kv. fst kv \<noteq> ''datum_id'') fin\<rparr>)))"

text \<open>
  One row of a frame is a \<open>Series\<close> over its columns: when all columns are numeric and
  one is \<open>float64\<close>, the integers of the row become floats.
\<close>

fun to_float :: "val \<Rightarrow> val" where
  "to_float (IntV i) = FloatV (Some i)"
| "to_float v = v"

definition row_cast :: "dataset dict \<Rightarrow> val \<Rightarrow> val" where
  "row_cast cs v =
     (if list_ex (\<lambda>kv. dset_dtype (snd kv) = Float64) cs
         \<and> list_all (\<lambda>kv. dset_dtype (snd kv) = Int64 \<or> dset_dtype (snd kv) = Float64) cs
      then to_float v else v)"

text \<open>
  \<open>dict(df.loc[d_uid])\<close>: the row labelled \<open>d_uid\<close>; a \<open>KeyError\<close> when no row has the
  label, and one \<open>Series\<close> per column when several rows have it.
\<close>

definition loc :: "frame \<Rightarrow> string \<Rightarrow> error + (string \<rightharpoonup> val)" where
  "loc df d_uid =
     (case filter (\<lambda>i. index df ! i = d_uid) [0 ..< length (index df)] of
        [] \<Rightarrow> Inl KeyError
      | [i] \<Rightarrow>
          Inr (map_of (map (\<lambda>kv. (fst kv, row_cast (cols df) (dset_data (snd kv) ! i)))
                           (cols df)))
      | i # j # js \<Rightarrow>
          Inr (map_of (map (\<lambda>kv. (fst kv,
                                   Series (map (\<lambda>n. dset_data (snd kv) ! n) (i # j # js))))
                           (cols df))))"

definition retrieve ::
  "(string \<rightharpoonup> h5file) \<Rightarrow> string \<Rightarrow> string \<Rightarrow> (string \<rightharpoonup> frame)
     \<Rightarrow> (string \<Rightarrow> error + ((string \<rightharpoonup> val) \<Rightarrow> 'a)) \<Rightarrow> 'l
     \<Rightarrow> (error + 'a) \<times> (string \<rightharpoonup> frame)" where
  "retrieve fs col datum_id' datum_cache get_spec_handler logger =
     (if CHR ''/'' \<notin> set datum_id' then (Inl DatumNotFound, datum_cache)
      else
        (case str_partition CHR ''/'' datum_id' of
           (r_uid, sep, d_uid) \<Rightarrow>
             (case get_spec_handler r_uid of
                Inl e \<Rightarrow> (Inl e, datum_cache)
              | Inr handler \<Rightarrow>
                  (case (case datum_cache r_uid of
                           Some df \<Rightarrow> (Inr df, datum_cache)
                         | None \<Rightarrow>
                             (case read_table fs (h5_path col r_uid) of
                                Inl e \<Rightarrow> (Inl e, datum_cache)
                              | Inr df \<Rightarrow> (Inr df, datum_cache(r_uid \<mapsto> df)))) of
                     (Inl e, cache') \<Rightarrow> (Inl e, cache')
                   | (Inr df, cache') \<Rightarrow>
                       (case loc df d_uid of
                          Inl e \<Rightarrow> (Inl e, cache')
                        | Inr row \<Rightarrow> (Inr (handler row), cache'))))))"

subsection \<open>resource\_given\_datum\_id, bulk\_insert\_datum, insert\_datum\<close>

definition resource_given_datum_id :: "'c \<Rightarrow> string \<Rightarrow> 'dc \<Rightarrow> 'l \<Rightarrow> string" where
  "resource_given_datum_id col datum_id' datum_cache logger =
     (case str_partition CHR ''/'' datum_id' of (r_uid, sep, d_uid) \<Rightarrow> r_uid)"

definition bulk_insert_datum ::
  "(nat \<Rightarrow> string) \<Rightarrow> string \<Rightarrow> doc_or_uid \<Rightarrow> 'i \<Rightarrow> val dict list \<Rightarrow> world
     \<Rightarrow> (error + string list) \<times> world" where
  "bulk_insert_datum uuid4 col resource' datum_ids datum_kwarg_list w =
     bulk_register_datum_table uuid4 col (None :: unit option) (doc_or_uid_to_uid resource')
       (DataFrame datum_kwarg_list) False w"

text \<open>
  The loop \<open>for k, v in datum_kwargs.items(): append(fout[k], [v])\<close>; what was appended
  before an exception stays in the file.
\<close>

fun append_items :: "h5file \<Rightarrow> val dict \<Rightarrow> error option \<times> h5file" where
  "append_items fout [] = (None, fout)"
| "append_items fout ((k, v) # kvs) =
     (case map_of fout k of
        None \<Rightarrow> (Some KeyError, fout)
      | Some dataset \<Rightarrow>
          (case h5_append dataset v of
             None \<Rightarrow> (Some TypeError, fout)
           | Some dataset' \<Rightarrow> append_items (AList.update k dataset' fout) kvs))"

definition insert_datum ::
  "(nat \<Rightarrow> string) \<Rightarrow> string \<Rightarrow> doc_or_uid \<Rightarrow> 'i \<Rightarrow> val dict \<Rightarrow> 'k \<Rightarrow> 'rc \<Rightarrow> world
     \<Rightarrow> (error + datum) \<times> world" where
  "insert_datum uuid4 datum_col resource' datum_id' datum_kwargs' known_spec resource_col w =
     (let res = doc_or_uid_to_uid resource';
          p = pathlib_path datum_col res
      in case files w p of
           Some fout \<Rightarrow>
             (let d_id = uuid4 (drawn w);
                  d_uid = res @ ''/'' @ d_id;
                  w1 = w\<lparr>drawn := drawn w + 1\<rparr>
              in case map_of fout ''datum_id'' of
                   None \<Rightarrow> (Inl KeyError, w1)
                 | Some dataset \<Rightarrow>
                     (case h5_append dataset (StrV d_id) of
                        None \<Rightarrow> (Inl TypeError, w1)
                      | Some dataset' \<Rightarrow>
                          (let written = append_items
                                 (AList.update ''datum_id'' dataset' fout) datum_kwargs';
                               w2 = w1\<lparr>files := (files w1)(p \<mapsto> snd written)\<rparr>
                           in case fst written of
                                Some e \<Rightarrow> (Inl e, w2)
                              | None \<Rightarrow>
                                  (Inr \<lparr>resource = res, datum_id = d_uid,
                                        datum_kwargs = datum_kwargs'\<rparr>, w2))))
         | None \<Rightarrow>
             (case bulk_register_datum_table uuid4 datum_col resource_col res
                     (DataFrame [datum_kwargs']) False w of
                (Inl e, w') \<Rightarrow> (Inl e, w')
              | (Inr [d_uid], w') \<Rightarrow>
                  (Inr \<lparr>resource = res, datum_id = d_uid, datum_kwargs = datum_kwargs'\<rparr>, w')
              | (Inr ds, w') \<Rightarrow> (Inl ValueError, w')))"

subsection \<open>Sequences of calls, table contents, cache coherence\<close>

text \<open>
  \<open>insert_datum\<close> called once for each element of a list of arguments, in order, on the
  same resource; the first exception ends the sequence.
\<close>

fun insert_datum_seq ::
  "(nat \<Rightarrow> string) \<Rightarrow> string \<Rightarrow> doc_or_uid \<Rightarrow> ('i \<times> val dict) list \<Rightarrow> 'k \<Rightarrow> 'rc \<Rightarrow> world
     \<Rightarrow> (error + datum list) \<times> world" where
  "insert_datum_seq uuid4 datum_col resource' [] known_spec resource_col w = (Inr [], w)"
| "insert_datum_seq uuid4 datum_col resource' (call # calls) known_spec resource_col w =
     (case insert_datum uuid4 datum_col resource' (fst call) (snd call) known_spec resource_col w of
        (Inl e, w') \<Rightarrow> (Inl e, w')
      | (Inr d, w') \<Rightarrow>
          (case insert_datum_seq uuid4 datum_col resource' calls known_spec resource_col w' of
             (Inl e, w'') \<Rightarrow> (Inl e, w'')
           | (Inr ds, w'') \<Rightarrow> (Inr (d # ds), w'')))"

text \<open>
  The strings \<open>str(uuid.uuid4())\<close> returns: 36 characters, hexadecimal digits and \<open>-\<close>.
  Resource uids are such strings too.
\<close>

definition uuid_str :: "string \<Rightarrow> bool" where
  "uuid_str s \<longleftrightarrow> length s = 36 \<and> list_all (\<lambda>c. c \<in> set ''0123456789abcdef-'') s"

text \<open>A key that is a plain name: letters, digits and \<open>_\<close>, at least one.\<close>

definition plain_name :: "string \<Rightarrow> bool" where
  "plain_name k \<longleftrightarrow>
     k \<noteq> [] \<and>
     list_all (\<lambda>c. c \<in> set ''abcdefghijklmnopqrstuvwxyzABCDEFGHIJKLMNOPQRSTUVWXYZ0123456789_'') k"

text \<open>
  Keyword arguments with distinct plain keys, none of them \<open>datum_id\<close>, and integer
  values.
\<close>

definition plain_kwargs :: "val dict \<Rightarrow> bool" where
  "plain_kwargs kw \<longleftrightarrow>
     distinct (map fst kw) \<and>
     list_all (\<lambda>kv. plain_name (fst kv) \<and> fst kv \<noteq> ''datum_id'' \<and> is_IntV (snd kv)) kw"

text \<open>
  The file \<open>c\<close> holds exactly the rows \<open>kws\<close> under the local ids \<open>ids\<close>: one \<open>int64\<close>
  dataset per key in \<open>K\<close> and the dataset \<open>datum_id\<close> of width 36.
\<close>

definition holds_rows :: "h5file \<Rightarrow> string set \<Rightarrow> string list \<Rightarrow> val dict list \<Rightarrow> bool" where
  "holds_rows c K ids kws \<longleftrightarrow>
     distinct (map fst c) \<and> fst ` set c = insert ''datum_id'' K \<and> ''datum_id'' \<notin> K \<and>
     length ids = length kws \<and>
     map_of c ''datum_id'' = Some (Dataset (Bytes 36) (map StrV ids)) \<and>
     list_all (\<lambda>d. length d \<le> 36) ids \<and>
     (\<forall>k\<in>K. list_all (\<lambda>r. is_int_cell (map_of r k)) kws \<and>
             map_of c k = Some (Dataset Int64 (map (\<lambda>r. cell_object (map_of r k)) kws)))"

text \<open>
  The state of a resource's file at \<open>path\<close>: not written yet, or holding the rows \<open>kws\<close>
  under the ids \<open>ids\<close>.
\<close>

definition table_state ::
  "(string \<rightharpoonup> h5file) \<Rightarrow> string \<Rightarrow> string set \<Rightarrow> string list \<Rightarrow> val dict list \<Rightarrow> bool" where
  "table_state fs path K ids kws \<longleftrightarrow>
     (case fs path of
        None \<Rightarrow> ids = [] \<and> kws = [] \<and> ''datum_id'' \<notin> K
      | Some c \<Rightarrow> holds_rows c K ids kws)"

text \<open>Every table in the cache is the one a read of the resource's file gives now.\<close>

definition coherent :: "(string \<rightharpoonup> h5file) \<Rightarrow> string \<Rightarrow> (string \<rightharpoonup> frame) \<Rightarrow> bool" where
  "coherent fs col datum_cache \<longleftrightarrow>
     (\<forall>r df. datum_cache r = Some df \<longrightarrow> read_table fs (h5_path col r) = Inr df)"

subsection \<open>A fixture for the worked examples\<close>

text \<open>
  Two streams of pairwise different local ids, the second of uuid strings; a resource
  uid; a registry whose handler returns the value of \<open>v\<close> in its row; the empty store
  directory \<open>db\<close> and a store with one two-row file.
\<close>

definition uuid_demo :: "nat \<Rightarrow> string" where
  "uuid_demo n = replicate (Suc n) CHR ''u''"

definition uuid_demo36 :: "nat \<Rightarrow> string" where
  "uuid_demo36 n =
     ''00000000-0000-4000-8000-0000000000''
       @ [''0123456789abcdef'' ! (n div 16 mod 16), ''0123456789abcdef'' ! (n mod 16)]"

definition uid_demo :: string where
  "uid_demo = ''11111111-1111-4111-8111-111111111111''"

definition handler_demo :: "string \<Rightarrow> error + ((string \<rightharpoonup> val) \<Rightarrow> val option)" where
  "handler_demo r_uid = Inr (\<lambda>row. row ''v'')"

definition world0 :: world where
  "world0 = \<lparr>dirs = {''db''}, files = Map.empty, drawn = 0, handling = None\<rparr>"

definition files_demo :: "string \<rightharpoonup> h5file" where
  "files_demo =
     [''db/r.h5'' \<mapsto> [(''v'', Dataset Int64 [IntV 10, IntV 20]),
                      (''datum_id'', Dataset (Bytes 2) [StrV ''u'', StrV ''uu''])]]"

section \<open>Properties\<close>

subsection \<open>Splitting a datum id\<close>

lemma str_partition_takeWhile:
  "str_partition sep s =
     (takeWhile (\<lambda>c. c \<noteq> sep) s,
      (if sep \<in> set s then [sep] else []),
      drop 1 (dropWhile (\<lambda>c. c \<noteq> sep) s))"
  by (induction s) auto

lemma str_partition_join:
  "sep \<notin> set r \<Longrightarrow> str_partition sep (r @ sep # d) = (r, [sep], d)"
  by (induction r) auto

lemma str_partition_none:
  "sep \<notin> set s \<Longrightarrow> str_partition sep s = (s, [], [])"
  by (induction s) auto

lemma takeWhile_sep_split:
  "sep \<in> set s \<Longrightarrow> s = takeWhile (\<lambda>c. c \<noteq> sep) s @ sep # drop 1 (dropWhile (\<lambda>c. c \<noteq> sep) s)"
  by (induction s) auto

lemma resource_given_datum_id_join:
  "CHR ''/'' \<notin> set r \<Longrightarrow> resource_given_datum_id col (r @ ''/'' @ d) datum_cache logger = r"
  by (simp add: resource_given_datum_id_def str_partition_join)

text \<open>
  C10. \<open>resource_given_datum_id\<close> is a function of the datum id alone and has a value for
  every string: the prefix before the first \<open>/\<close>, which is the whole string when it has no
  \<open>/\<close>. Neither the collection nor the cache is read and the shape of the id is not checked.
\<close>

theorem resource_given_datum_id_total:
  "resource_given_datum_id col d datum_cache logger = takeWhile (\<lambda>c. c \<noteq> CHR ''/'') d
   \<and> (if CHR ''/'' \<in> set d
       then (\<exists>rest. d = resource_given_datum_id col d datum_cache logger @ ''/'' @ rest)
       else resource_given_datum_id col d datum_cache logger = d)"
proof -
  have r: "resource_given_datum_id col d datum_cache logger = takeWhile (\<lambda>c. c \<noteq> CHR ''/'') d"
    by (simp add: resource_given_datum_id_def str_partition_takeWhile)
  show ?thesis
  proof (cases "CHR ''/'' \<in> set d")
    case True
    from takeWhile_sep_split[OF True]
    have "\<exists>rest. d = takeWhile (\<lambda>c. c \<noteq> CHR ''/'') d @ ''/'' @ rest"
      by auto
    then show ?thesis using True by (simp add: r)
  next
    case False
    then have tw: "takeWhile (\<lambda>c. c \<noteq> CHR ''/'') d = d" by (induction d) auto
    show ?thesis using False by (simp add: r tw)
  qed
qed

theorem resource_given_datum_id_total_witness:
  "resource_given_datum_id () ''not-a-valid-id'' () () = ''not-a-valid-id''
   \<and> resource_given_datum_id () ''r/u/x'' () () = ''r''"
  using resource_given_datum_id_total[of "()" "''not-a-valid-id''" "()" "()"]
        resource_given_datum_id_total[of "()" "''r/u/x''" "()" "()"]
  by simp

text \<open>
  C4. For a resource uid without \<open>/\<close>, splitting \<open>uid/local\<close> at the first \<open>/\<close> gives
  back the uid and the local id, whatever the local id is; and the owning uid of every
  datum id that \<open>bulk_register_datum_table\<close> returns is the part before the first \<open>/\<close>.
\<close>

theorem split_datum_id_recovers:
  assumes "CHR ''/'' \<notin> set resource_uid"
  shows "str_partition CHR ''/'' (resource_uid @ ''/'' @ local_id) = (resource_uid, ''/'', local_id)
         \<and> (\<forall>ids w'. bulk_register_datum_table uuid4 datum_col resource_col resource_uid
                            dkwargs_table validate w = (Inr ids, w')
               \<longrightarrow> (\<forall>d\<in>set ids. resource_given_datum_id col d datum_cache logger = resource_uid))"
proof (intro conjI allI impI ballI)
  show "str_partition CHR ''/'' (resource_uid @ ''/'' @ local_id) = (resource_uid, ''/'', local_id)"
    using assms by (simp add: str_partition_join)
next
  fix ids w' d
  assume reg: "bulk_register_datum_table uuid4 datum_col resource_col resource_uid
                 dkwargs_table validate w = (Inr ids, w')"
    and d: "d \<in> set ids"
  from reg have "ids = map (\<lambda>d. resource_uid @ ''/'' @ d)
                         (map uuid4 [drawn w ..< drawn w + nrows dkwargs_table])"
    by (auto simp: bulk_register_datum_table_def Let_def split: if_splits option.splits)
  with d obtain l where "d = resource_uid @ ''/'' @ l" by auto
  then show "resource_given_datum_id col d datum_cache logger = resource_uid"
    using resource_given_datum_id_join[OF assms, of col l datum_cache logger] by simp
qed

theorem split_datum_id_recovers_witness:
  "CHR ''/'' \<notin> set ''r''
   \<and> str_partition CHR ''/'' ''r/uu'' = (''r'', ''/'', ''uu'')
   \<and> fst (bulk_register_datum_table uuid_demo ''db'' () ''r''
             \<lparr>nrows = 2, columns = [(''v'', [IntV 1, IntV 2])]\<rparr> False world0) = Inr [''r/u'', ''r/uu'']
   \<and> resource_given_datum_id () ''r/uu'' () () = ''r''"
proof -
  have h: "CHR ''/'' \<notin> set ''r''" by simp
  have reg: "fst (bulk_register_datum_table uuid_demo ''db'' () ''r''
             \<lparr>nrows = 2, columns = [(''v'', [IntV 1, IntV 2])]\<rparr> False world0) = Inr [''r/u'', ''r/uu'']"
    by (simp add: bulk_register_datum_table_def Let_def world0_def uuid_demo_def upt_rec
        ids_array_def column_dtype_def dirname_def h5_path_def)
  show ?thesis
    using h reg split_datum_id_recovers[OF h, of "''uu''" uuid_demo "''db''" "()"
        "\<lparr>nrows = 2, columns = [(''v'', [IntV 1, IntV 2])]\<rparr>" False world0 "()" "()" "()"]
    by (simp add: resource_given_datum_id_def)
qed

subsection \<open>retrieve on a malformed id\<close>

text \<open>
  C5. On a string without \<open>/\<close>, \<open>retrieve\<close> raises \<open>DatumNotFound\<close> whatever the
  handler registry, the cache and the files are: the handler lookup is not consulted (a
  failing lookup does not change the error), the cache is returned as it was and no file
  is read.
\<close>

theorem retrieve_no_separator:
  "CHR ''/'' \<notin> set d \<Longrightarrow>
     retrieve fs col d datum_cache get_spec_handler logger = (Inl DatumNotFound, datum_cache)"
  by (simp add: retrieve_def)

theorem retrieve_no_separator_witness:
  "CHR ''/'' \<notin> set ''not-a-valid-id''
   \<and> retrieve Map.empty ''db'' ''not-a-valid-id'' Map.empty
        (\<lambda>r. (Inl KeyError :: error + ((string \<rightharpoonup> val) \<Rightarrow> val option))) ()
       = (Inl DatumNotFound, Map.empty)"
proof -
  have h: "CHR ''/'' \<notin> set ''not-a-valid-id''" by simp
  show ?thesis
    using h retrieve_no_separator[OF h, of Map.empty "''db''" Map.empty
        "\<lambda>r. (Inl KeyError :: error + ((string \<rightharpoonup> val) \<Rightarrow> val option))" "()"]
    by simp
qed

subsection \<open>The unused id arguments\<close>

text \<open>
  C9. The \<open>datum_ids\<close> argument of \<open>bulk_insert_datum\<close> and the \<open>datum_id\<close> argument of
  \<open>insert_datum\<close> are never read: two calls that differ only there, on the same state and
  id stream, return the same value and the same state.
\<close>

theorem insert_ignores_given_ids:
  "bulk_insert_datum uuid4 col resource' datum_ids1 datum_kwarg_list w
     = bulk_insert_datum uuid4 col resource' datum_ids2 datum_kwarg_list w
   \<and> insert_datum uuid4 col resource' datum_id1 datum_kwargs' known_spec resource_col w
     = insert_datum uuid4 col resource' datum_id2 datum_kwargs' known_spec resource_col w"
  by (simp add: bulk_insert_datum_def insert_datum_def)

subsection \<open>Writing datasets\<close>

lemma create_datasets_fresh:
  "distinct (map fst kvs) \<Longrightarrow> fst ` set fout \<inter> fst ` set kvs = {}
   \<Longrightarrow> \<forall>kv\<in>set kvs. dset_dtype (snd kv) \<noteq> Object
   \<Longrightarrow> create_datasets fout kvs = (None, fout @ kvs)"
proof (induction kvs arbitrary: fout)
  case Nil
  then show ?case by simp
next
  case (Cons kv kvs)
  obtain k v where kv: "kv = (k, v)" by (cases kv)
  from Cons.prems have nin: "k \<notin> fst ` set fout" and d: "distinct (map fst kvs)"
    and k': "k \<notin> fst ` set kvs" and disj: "fst ` set fout \<inter> fst ` set kvs = {}"
    and ty: "dset_dtype v \<noteq> Object" and tys: "\<forall>kv\<in>set kvs. dset_dtype (snd kv) \<noteq> Object"
    by (auto simp: kv)
  have "fst ` set (fout @ [(k, v)]) \<inter> fst ` set kvs = {}"
    using disj k' by auto
  from Cons.IH[OF d this tys] nin ty show ?case by (simp add: kv)
qed

lemma set_first_seen: "set (first_seen ks) = set ks"
  by (induction ks) auto

lemma distinct_first_seen: "distinct (first_seen ks)"
  by (induction ks) (auto simp: distinct_removeAll)

lemma first_seen_distinct: "distinct ks \<Longrightarrow> first_seen ks = ks"
  by (induction ks) (auto simp: set_first_seen)

lemma keys_DataFrame: "map fst (columns (DataFrame rs)) = first_seen (concat (map (map fst) rs))"
  by (simp add: DataFrame_def comp_def)

lemma nrows_DataFrame: "nrows (DataFrame rs) = length rs"
  by (simp add: DataFrame_def)

lemma column_of_single: "column_of [Some v] = [v]"
  by (cases v) (simp_all add: column_of_def)

lemma columns_DataFrame_single:
  assumes "distinct (map fst kw)"
  shows "columns (DataFrame [kw]) = map (\<lambda>kv. (fst kv, [snd kv])) kw"
proof -
  have "map (\<lambda>k. (k, column_of [map_of kw k])) (map fst kw)
        = map (\<lambda>kv. (fst kv, [snd kv])) kw"
    using assms by (auto simp: comp_def column_of_single)
  then show ?thesis using assms by (simp add: DataFrame_def first_seen_distinct)
qed

lemma column_of_ints:
  "list_all is_int_cell cs \<Longrightarrow> column_of cs = map cell_object cs"
  by (simp add: column_of_def)

lemma is_int_cell_object: "is_int_cell c \<Longrightarrow> is_IntV (cell_object c)"
  by (cases c rule: is_int_cell.cases) simp_all

lemma column_dtype_ints:
  "cs \<noteq> [] \<Longrightarrow> list_all is_int_cell cs \<Longrightarrow> column_dtype (map cell_object cs) = Int64"
  by (simp add: column_dtype_def list_all_iff is_int_cell_object)

lemma ids_array_not_object: "dset_dtype (ids_array d_ids) \<noteq> Object"
  by (simp add: ids_array_def)

lemma ids_array_single: "length d = 36 \<Longrightarrow> ids_array [d] = Dataset (Bytes 36) [StrV d]"
  by (simp add: ids_array_def)

lemma append_items_ok:
  "distinct (map fst kvs)
   \<Longrightarrow> \<forall>kv\<in>set kvs. is_IntV (snd kv) \<and> (\<exists>vs. map_of fout (fst kv) = Some (Dataset Int64 vs))
   \<Longrightarrow> \<exists>fout'. append_items fout kvs = (None, fout')
         \<and> map fst fout' = map fst fout
         \<and> (\<forall>k. map_of fout' k =
                 (case map_of kvs k of None \<Rightarrow> map_of fout k
                  | Some v \<Rightarrow> map_option (\<lambda>ds. Dataset Int64 (dset_data ds @ [v]))
                               (map_of fout k)))"
proof (induction kvs arbitrary: fout)
  case Nil
  then show ?case by simp
next
  case (Cons kv kvs)
  obtain k v where kv: "kv = (k, v)" by (cases kv)
  from Cons.prems obtain i vs where v: "v = IntV i" and ds: "map_of fout k = Some (Dataset Int64 vs)"
    by (cases v) (auto simp: kv)
  from Cons.prems have d: "distinct (map fst kvs)" and k': "k \<notin> fst ` set kvs"
    and rest: "\<forall>kv\<in>set kvs. is_IntV (snd kv) \<and> (\<exists>vs. map_of fout (fst kv) = Some (Dataset Int64 vs))"
    by (auto simp: kv)
  let ?f1 = "AList.update k (Dataset Int64 (vs @ [v])) fout"
  have kin: "k \<in> fst ` set fout"
    using ds by (metis domI dom_map_of_conv_image_fst)
  have keys1: "map fst ?f1 = map fst fout"
    using kin by (simp add: update_keys)
  have rest1: "\<forall>kv\<in>set kvs. is_IntV (snd kv) \<and> (\<exists>vs. map_of ?f1 (fst kv) = Some (Dataset Int64 vs))"
    using rest k' by (auto simp: update_conv')
  from Cons.IH[OF d rest1] obtain fout' where
    r: "append_items ?f1 kvs = (None, fout')" and keys: "map fst fout' = map fst ?f1"
    and vals: "\<forall>k'. map_of fout' k' =
                 (case map_of kvs k' of None \<Rightarrow> map_of ?f1 k'
                  | Some v' \<Rightarrow> map_option (\<lambda>ds. Dataset Int64 (dset_data ds @ [v']))
                                 (map_of ?f1 k'))"
    by blast
  have knone: "map_of kvs k = None" using k' by (simp add: map_of_eq_None_iff)
  have "\<forall>k'. map_of fout' k' =
          (case map_of (kv # kvs) k' of None \<Rightarrow> map_of fout k'
           | Some v' \<Rightarrow> map_option (\<lambda>ds. Dataset Int64 (dset_data ds @ [v'])) (map_of fout k'))"
    using vals knone ds by (auto simp: kv update_conv' split: option.splits)
  moreover have "append_items fout (kv # kvs) = (None, fout')"
    using r ds by (simp add: kv v h5_append_def append_def)
  ultimately show ?case using keys keys1 by simp
qed

subsection \<open>The two paths of insert\_datum\<close>

lemma upt_single: "[n ..< n + 1] = [n]"
  by (simp add: upt_rec)

lemma dirname_h5_path:
  assumes "CHR ''/'' \<notin> set resource_uid"
  shows "dirname (h5_path datum_col resource_uid) = datum_col"
proof -
  have a: "\<And>x. x \<in> set (rev resource_uid) \<Longrightarrow> x \<noteq> CHR ''/''"
    using assms by auto
  have "dropWhile (\<lambda>c. c \<noteq> CHR ''/'') (rev resource_uid @ CHR ''/'' # rev datum_col)
          = dropWhile (\<lambda>c. c \<noteq> CHR ''/'') (CHR ''/'' # rev datum_col)"
    by (rule dropWhile_append2) (rule a)
  then show ?thesis by (simp add: dirname_def h5_path_def)
qed

lemma pathlib_path_eq:
  assumes "datum_col \<noteq> []" and "CHR ''/'' \<notin> set resource_uid"
  shows "pathlib_path datum_col resource_uid = h5_path datum_col resource_uid"
proof -
  have "take 1 resource_uid \<noteq> ''/''"
    using assms(2) by (cases resource_uid) auto
  with assms(1) show ?thesis by (simp add: pathlib_path_def)
qed

lemma bulk_register_fresh_columns:
  assumes "distinct (map fst (columns t))" and "''datum_id'' \<notin> fst ` set (columns t)"
    and "dirname (h5_path datum_col resource_uid) \<in> dirs w"
    and "\<forall>kv\<in>set (columns t). column_dtype (snd kv) \<noteq> Object"
  shows "bulk_register_datum_table uuid4 datum_col resource_col resource_uid t False w =
           (Inr (map (\<lambda>d. resource_uid @ ''/'' @ d) (map uuid4 [drawn w ..< drawn w + nrows t])),
            w\<lparr>drawn := drawn w + nrows t,
              files := (files w)(h5_path datum_col resource_uid \<mapsto>
                map (\<lambda>kv. (fst kv, Dataset (column_dtype (snd kv)) (snd kv))) (columns t)
                  @ [(''datum_id'', ids_array (map uuid4 [drawn w ..< drawn w + nrows t]))])\<rparr>)"
proof -
  let ?new = "map (\<lambda>kv. (fst kv, Dataset (column_dtype (snd kv)) (snd kv))) (columns t)
                  @ [(''datum_id'', ids_array (map uuid4 [drawn w ..< drawn w + nrows t]))]"
  have "distinct (map fst ?new)" using assms(1,2) by (auto simp: comp_def)
  moreover have "\<forall>kv\<in>set ?new. dset_dtype (snd kv) \<noteq> Object"
    using assms(4) by (auto simp: ids_array_not_object)
  ultimately have "create_datasets [] ?new = (None, [] @ ?new)"
    by (intro create_datasets_fresh) auto
  then show ?thesis
    using assms(3) by (simp add: bulk_register_datum_table_def Let_def)
qed

lemma insert_datum_first:
  assumes none: "files w (h5_path datum_col (doc_or_uid_to_uid res)) = None"
    and u: "CHR ''/'' \<notin> set (doc_or_uid_to_uid res)" and dir: "datum_col \<in> dirs w"
    and ne: "datum_col \<noteq> []"
    and d: "distinct (map fst kw)" and nk: "''datum_id'' \<notin> fst ` set kw"
    and iv: "\<forall>kv\<in>set kw. is_IntV (snd kv)"
    and len: "length (uuid4 (drawn w)) = 36"
  shows "insert_datum uuid4 datum_col res did kw known_spec resource_col w =
           (Inr \<lparr>resource = doc_or_uid_to_uid res,
                 datum_id = doc_or_uid_to_uid res @ ''/'' @ uuid4 (drawn w),
                 datum_kwargs = kw\<rparr>,
            w\<lparr>drawn := drawn w + 1,
              files := (files w)(h5_path datum_col (doc_or_uid_to_uid res) \<mapsto>
                map (\<lambda>kv. (fst kv, Dataset Int64 [snd kv])) kw
                  @ [(''datum_id'', Dataset (Bytes 36) [StrV (uuid4 (drawn w))])])\<rparr>)"
proof -
  have cols: "columns (DataFrame [kw]) = map (\<lambda>kv. (fst kv, [snd kv])) kw"
    by (rule columns_DataFrame_single[OF d])
  have d': "distinct (map fst (columns (DataFrame [kw])))"
    using d by (simp add: cols comp_def)
  have nk': "''datum_id'' \<notin> fst ` set (columns (DataFrame [kw]))"
    using nk by (force simp: cols)
  have ty: "\<forall>kv\<in>set kw. column_dtype [snd kv] = Int64"
    using iv by (simp add: column_dtype_def)
  then have ty': "\<forall>kv\<in>set (columns (DataFrame [kw])). column_dtype (snd kv) \<noteq> Object"
    by (auto simp: cols)
  have m: "map ((\<lambda>kv. (fst kv, Dataset (column_dtype (snd kv)) (snd kv)))
                  \<circ> (\<lambda>kv. (fst kv, [snd kv]))) kw
           = map (\<lambda>kv. (fst kv, Dataset Int64 [snd kv])) kw"
    using ty by simp
  have dir': "dirname (h5_path datum_col (doc_or_uid_to_uid res)) \<in> dirs w"
    using dir by (simp add: dirname_h5_path[OF u])
  show ?thesis
    using none
    by (simp add: insert_datum_def Let_def pathlib_path_eq[OF ne u]
        bulk_register_fresh_columns[OF d' nk' dir' ty']
        nrows_DataFrame upt_single cols m ids_array_single[OF len])
qed

lemma insert_datum_append:
  assumes some: "files w (h5_path datum_col (doc_or_uid_to_uid res)) = Some c"
    and u: "CHR ''/'' \<notin> set (doc_or_uid_to_uid res)" and ne: "datum_col \<noteq> []"
    and ids: "map_of c ''datum_id'' = Some (Dataset (Bytes 36) ids)"
    and d: "distinct (map fst kw)" and nk: "''datum_id'' \<notin> fst ` set kw"
    and iv: "\<forall>kv\<in>set kw. is_IntV (snd kv) \<and> (\<exists>vs. map_of c (fst kv) = Some (Dataset Int64 vs))"
    and len: "length (uuid4 (drawn w)) = 36"
  shows "\<exists>c'. insert_datum uuid4 datum_col res did kw known_spec resource_col w =
           (Inr \<lparr>resource = doc_or_uid_to_uid res,
                 datum_id = doc_or_uid_to_uid res @ ''/'' @ uuid4 (drawn w),
                 datum_kwargs = kw\<rparr>,
            w\<lparr>drawn := drawn w + 1,
              files := (files w)(h5_path datum_col (doc_or_uid_to_uid res) \<mapsto> c')\<rparr>)
         \<and> map fst c' = map fst c
         \<and> (\<forall>k. map_of c' k =
                (if k = ''datum_id'' then Some (Dataset (Bytes 36) (ids @ [StrV (uuid4 (drawn w))]))
                 else case map_of kw k of None \<Rightarrow> map_of c k
                      | Some v \<Rightarrow> map_option (\<lambda>ds. Dataset Int64 (dset_data ds @ [v]))
                                   (map_of c k)))"
proof -
  let ?id = "uuid4 (drawn w)"
  let ?c1 = "AList.update ''datum_id'' (Dataset (Bytes 36) (ids @ [StrV ?id])) c"
  have ap: "h5_append (Dataset (Bytes 36) ids) (StrV ?id) = Some (Dataset (Bytes 36) (ids @ [StrV ?id]))"
    using len by (simp add: h5_append_def append_def)
  have kin: "''datum_id'' \<in> fst ` set c"
    using ids by (metis domI dom_map_of_conv_image_fst)
  have keys1: "map fst ?c1 = map fst c"
    using kin by (simp add: update_keys)
  have iv1: "\<forall>kv\<in>set kw. is_IntV (snd kv) \<and> (\<exists>vs. map_of ?c1 (fst kv) = Some (Dataset Int64 vs))"
    using iv nk by (force simp: update_conv')
  from append_items_ok[OF d iv1] obtain c' where
    r: "append_items ?c1 kw = (None, c')" and keys: "map fst c' = map fst ?c1"
    and vals: "\<forall>k. map_of c' k =
                 (case map_of kw k of None \<Rightarrow> map_of ?c1 k
                  | Some v \<Rightarrow> map_option (\<lambda>ds. Dataset Int64 (dset_data ds @ [v])) (map_of ?c1 k))"
    by blast
  have knone: "map_of kw ''datum_id'' = None" using nk by (simp add: map_of_eq_None_iff)
  have vals': "\<forall>k. map_of c' k =
                (if k = ''datum_id'' then Some (Dataset (Bytes 36) (ids @ [StrV ?id]))
                 else case map_of kw k of None \<Rightarrow> map_of c k
                      | Some v \<Rightarrow> map_option (\<lambda>ds. Dataset Int64 (dset_data ds @ [v]))
                                   (map_of c k))"
    using vals knone by (auto simp: update_conv' split: option.splits)
  have "insert_datum uuid4 datum_col res did kw known_spec resource_col w =
           (Inr \<lparr>resource = doc_or_uid_to_uid res,
                 datum_id = doc_or_uid_to_uid res @ ''/'' @ ?id,
                 datum_kwargs = kw\<rparr>,
            w\<lparr>drawn := drawn w + 1,
              files := (files w)(h5_path datum_col (doc_or_uid_to_uid res) \<mapsto> c')\<rparr>)"
    using some ids ap r by (simp add: insert_datum_def Let_def pathlib_path_eq[OF ne u])
  with keys keys1 vals' show ?thesis by auto
qed

subsection \<open>The cache\<close>

lemma retrieve_coherent_fst:
  "coherent fs col datum_cache \<Longrightarrow>
     fst (retrieve fs col d datum_cache get_spec_handler logger)
       = fst (retrieve fs col d Map.empty get_spec_handler logger)"
  by (auto simp: retrieve_def coherent_def split: prod.splits sum.splits option.splits)








subsection \<open>A local id that the table does not have\<close>

lemma loc_absent: "d_uid \<notin> set (index df) \<Longrightarrow> loc df d_uid = Inl KeyError"
proof -
  assume a: "d_uid \<notin> set (index df)"
  have "filter (\<lambda>i. index df ! i = d_uid) [0 ..< length (index df)] = []"
    using a by (auto simp: filter_empty_conv)
  then show ?thesis by (simp add: loc_def)
qed

lemma retrieve_absent_local_id:
  assumes "CHR ''/'' \<notin> set u" and "get_spec_handler u = Inr handler"
    and "datum_cache u = None" and "read_table fs (h5_path col u) = Inr df"
    and "d \<notin> set (index df)"
  shows "fst (retrieve fs col (u @ ''/'' @ d) datum_cache get_spec_handler logger) = Inl KeyError"
  using assms loc_absent[of d df] by (simp add: retrieve_def str_partition_join)

text \<open>
  C6 at a table with the local ids \<open>u\<close> and \<open>uu\<close>: \<open>retrieve\<close> of \<open>r/zz\<close> ends in the
  \<open>KeyError\<close> of \<open>df.loc\<close>, not in \<open>DatumNotFound\<close>.
\<close>

theorem retrieve_missing_local_id_KeyError:
  "fst (retrieve files_demo ''db'' ''r/zz'' Map.empty handler_demo ()) = Inl KeyError"
  by (simp add: retrieve_def files_demo_def handler_demo_def read_table_def loc_def h5_path_def
        row_cast_def)

subsection \<open>Round trip of insert\_datum and retrieve\<close>

lemma plain_kwargs_distinct: "plain_kwargs kw \<Longrightarrow> distinct (map fst kw)"
  by (simp add: plain_kwargs_def)

lemma plain_kwargs_ints: "plain_kwargs kw \<Longrightarrow> \<forall>kv\<in>set kw. is_IntV (snd kv)"
  by (simp add: plain_kwargs_def list_all_iff)

lemma plain_kwargs_no_id: "plain_kwargs kw \<Longrightarrow> ''datum_id'' \<notin> fst ` set kw"
  by (auto simp: plain_kwargs_def list_all_iff)

lemma plain_kwargs_cell:
  assumes "plain_kwargs kw" and "k \<in> fst ` set kw"
  shows "\<exists>i. map_of kw k = Some (IntV i)"
proof -
  from assms(2) obtain v where kv: "(k, v) \<in> set kw" by force
  with assms(1) have "map_of kw k = Some v" by (simp add: plain_kwargs_def)
  moreover from kv assms(1) have "is_IntV v" by (auto simp: plain_kwargs_def list_all_iff)
  ultimately show ?thesis by (cases v) simp_all
qed

lemma map_of_map_snd:
  "map_of (map (\<lambda>kv. (fst kv, f (snd kv))) c) k = map_option f (map_of c k)"
  by (induction c) auto

lemma holds_rows_first:
  assumes p: "plain_kwargs kw" and K: "fst ` set kw = K" and len: "length i \<le> 36"
  shows "holds_rows (map (\<lambda>kv. (fst kv, Dataset Int64 [snd kv])) kw
                       @ [(''datum_id'', Dataset (Bytes 36) [StrV i])]) K [i] [kw]"
proof -
  let ?c = "map (\<lambda>kv. (fst kv, Dataset Int64 [snd kv])) kw
              @ [(''datum_id'', Dataset (Bytes 36) [StrV i])]"
  from p have d: "distinct (map fst kw)" by (rule plain_kwargs_distinct)
  from p K have nk: "''datum_id'' \<notin> K" using plain_kwargs_no_id by blast
  have keys: "map fst ?c = map fst kw @ [''datum_id'']" by (simp add: comp_def)
  have "distinct (map fst ?c)" using d K nk unfolding keys by auto
  moreover have "fst ` set ?c = insert ''datum_id'' K"
  proof -
    have "fst ` set ?c = set (map fst ?c)" by (simp only: set_map)
    also have "\<dots> = insert ''datum_id'' (fst ` set kw)" unfolding keys by simp
    finally show ?thesis using K by simp
  qed
  moreover have nm: "map_of (map (\<lambda>kv. (fst kv, Dataset Int64 [snd kv])) kw) ''datum_id'' = None"
    using K nk by (force simp: map_of_eq_None_iff)
  then have "map_of ?c ''datum_id'' = Some (Dataset (Bytes 36) (map StrV [i]))"
    by (simp add: map_add_def)
  moreover have "\<forall>k\<in>K. list_all (\<lambda>r. is_int_cell (map_of r k)) [kw] \<and>
      map_of ?c k = Some (Dataset Int64 (map (\<lambda>r. cell_object (map_of r k)) [kw]))"
  proof
    fix k assume "k \<in> K"
    with K have "k \<in> fst ` set kw" by simp
    from plain_kwargs_cell[OF p this] obtain n where m: "map_of kw k = Some (IntV n)" by blast
    have "map_of (map (\<lambda>kv. (fst kv, Dataset Int64 [snd kv])) kw) k
            = map_option (\<lambda>v. Dataset Int64 [v]) (map_of kw k)"
      by (rule map_of_map_snd)
    with m show "list_all (\<lambda>r. is_int_cell (map_of r k)) [kw] \<and>
        map_of ?c k = Some (Dataset Int64 (map (\<lambda>r. cell_object (map_of r k)) [kw]))"
      by (simp add: map_add_def)
  qed
  ultimately show ?thesis using nk len by (simp add: holds_rows_def)
qed

lemma holds_rows_append:
  assumes h: "holds_rows c K ids kws"
    and p: "plain_kwargs kw" and K: "fst ` set kw = K" and len: "length i \<le> 36"
    and keys: "map fst c' = map fst c"
    and vals: "\<forall>k. map_of c' k =
                (if k = ''datum_id'' then Some (Dataset (Bytes 36) (map StrV ids @ [StrV i]))
                 else case map_of kw k of None \<Rightarrow> map_of c k
                      | Some v \<Rightarrow> map_option (\<lambda>ds. Dataset Int64 (dset_data ds @ [v]))
                                   (map_of c k))"
  shows "holds_rows c' K (ids @ [i]) (kws @ [kw])"
proof -
  from h have dc: "distinct (map fst c)" and kc: "fst ` set c = insert ''datum_id'' K"
    and nk: "''datum_id'' \<notin> K" and l: "length ids = length kws"
    and li: "list_all (\<lambda>d. length d \<le> 36) ids"
    and cols: "\<forall>k\<in>K. list_all (\<lambda>r. is_int_cell (map_of r k)) kws \<and>
                map_of c k = Some (Dataset Int64 (map (\<lambda>r. cell_object (map_of r k)) kws))"
    by (simp_all add: holds_rows_def)
  have "set (map fst c') = set (map fst c)" using keys by simp
  then have "fst ` set c' = insert ''datum_id'' K"
    using kc by (simp only: set_map)
  moreover have "\<forall>k\<in>K. list_all (\<lambda>r. is_int_cell (map_of r k)) (kws @ [kw]) \<and>
      map_of c' k = Some (Dataset Int64 (map (\<lambda>r. cell_object (map_of r k)) (kws @ [kw])))"
  proof
    fix k assume k: "k \<in> K"
    with K have "k \<in> fst ` set kw" by simp
    from plain_kwargs_cell[OF p this] obtain n where m: "map_of kw k = Some (IntV n)" by blast
    from k nk have "k \<noteq> ''datum_id''" by auto
    with vals m cols k
    show "list_all (\<lambda>r. is_int_cell (map_of r k)) (kws @ [kw]) \<and>
        map_of c' k = Some (Dataset Int64 (map (\<lambda>r. cell_object (map_of r k)) (kws @ [kw])))"
      by simp
  qed
  ultimately show ?thesis
    using dc keys nk l li len vals by (simp add: holds_rows_def)
qed

lemma decode_bytes_StrV: "decode_bytes (map StrV ids) = Some ids"
  by (induction ids) auto

lemma filter_eq_upt: "filter (\<lambda>i. i = j) [0 ..< n] = (if j < n then [j] else [])"
  by (induction n) auto

lemma positions_distinct:
  assumes "distinct xs" and "j < length xs"
  shows "filter (\<lambda>i. xs ! i = xs ! j) [0 ..< length xs] = [j]"
proof -
  have "filter (\<lambda>i. xs ! i = xs ! j) [0 ..< length xs] = filter (\<lambda>i. i = j) [0 ..< length xs]"
    using assms by (intro filter_cong) (auto simp: nth_eq_iff_index_eq)
  with assms show ?thesis by (simp add: filter_eq_upt)
qed

lemma map_of_filter_key:
  "map_of (filter (\<lambda>kv. fst kv \<noteq> d) c) k = (if k = d then None else map_of c k)"
  by (induction c) auto

lemma same_length_all:
  "\<forall>v\<in>set vs. length v = n \<Longrightarrow> same_length vs"
  by (cases vs) (auto simp: list_all_iff)

lemma holds_rows_dataset:
  assumes h: "holds_rows c K ids kws" and kv: "(k, ds) \<in> set c"
  shows "(k = ''datum_id'' \<and> ds = Dataset (Bytes 36) (map StrV ids))
         \<or> (k \<in> K \<and> ds = Dataset Int64 (map (\<lambda>r. cell_object (map_of r k)) kws))"
proof -
  from h have dc: "distinct (map fst c)" and kc: "fst ` set c = insert ''datum_id'' K"
    and idc: "map_of c ''datum_id'' = Some (Dataset (Bytes 36) (map StrV ids))"
    and cols: "\<forall>k\<in>K. map_of c k = Some (Dataset Int64 (map (\<lambda>r. cell_object (map_of r k)) kws))"
    by (simp_all add: holds_rows_def)
  from kv dc have m: "map_of c k = Some ds" by simp
  from kv kc have "k = ''datum_id'' \<or> k \<in> K" by force
  then show ?thesis using m idc cols by auto
qed

lemma holds_rows_same_length:
  assumes h: "holds_rows c K ids kws"
  shows "same_length (map (\<lambda>kv. dset_data (snd kv)) c)"
proof (rule same_length_all[where n = "length ids"])
  from h have l: "length ids = length kws" by (simp add: holds_rows_def)
  show "\<forall>v\<in>set (map (\<lambda>kv. dset_data (snd kv)) c). length v = length ids"
  proof
    fix v assume "v \<in> set (map (\<lambda>kv. dset_data (snd kv)) c)"
    then obtain k ds where kv: "(k, ds) \<in> set c" and v: "v = dset_data ds" by auto
    from holds_rows_dataset[OF h kv] show "length v = length ids"
      using l v by auto
  qed
qed

lemma holds_rows_no_cast:
  assumes h: "holds_rows c K ids kws"
  shows "row_cast (filter (\<lambda>kv. fst kv \<noteq> ''datum_id'') c) v = v"
proof -
  have "\<forall>kv\<in>set (filter (\<lambda>kv. fst kv \<noteq> ''datum_id'') c). dset_dtype (snd kv) = Int64"
  proof
    fix kv assume "kv \<in> set (filter (\<lambda>kv. fst kv \<noteq> ''datum_id'') c)"
    then have kv: "(fst kv, snd kv) \<in> set c" and n: "fst kv \<noteq> ''datum_id''" by simp_all
    from holds_rows_dataset[OF h kv] n show "dset_dtype (snd kv) = Int64" by auto
  qed
  then have "\<not> list_ex (\<lambda>kv. dset_dtype (snd kv) = Float64)
                 (filter (\<lambda>kv. fst kv \<noteq> ''datum_id'') c)"
    unfolding list_ex_iff by force
  then show ?thesis unfolding row_cast_def by (simp only: simp_thms if_False)
qed

lemma holds_rows_row:
  assumes h: "holds_rows c K ids kws" and j: "j < length ids"
    and K: "fst ` set (kws ! j) = K"
  shows "map_of (map (\<lambda>kv. (fst kv, dset_data (snd kv) ! j))
                     (filter (\<lambda>kv. fst kv \<noteq> ''datum_id'') c))
           = map_of (kws ! j)"
proof
  fix k
  from h have kc: "fst ` set c = insert ''datum_id'' K"
    and nk: "''datum_id'' \<notin> K" and len: "length ids = length kws"
    and cols: "\<forall>k\<in>K. list_all (\<lambda>r. is_int_cell (map_of r k)) kws \<and>
                map_of c k = Some (Dataset Int64 (map (\<lambda>r. cell_object (map_of r k)) kws))"
    by (simp_all add: holds_rows_def)
  have mm: "map_of (map (\<lambda>kv. (fst kv, dset_data (snd kv) ! j))
                     (filter (\<lambda>kv. fst kv \<noteq> ''datum_id'') c)) k
            = map_option (\<lambda>ds. dset_data ds ! j)
                (if k = ''datum_id'' then None else map_of c k)"
    using map_of_map_snd[of "\<lambda>ds. dset_data ds ! j" "filter (\<lambda>kv. fst kv \<noteq> ''datum_id'') c" k]
    by (simp add: map_of_filter_key)
  show "map_of (map (\<lambda>kv. (fst kv, dset_data (snd kv) ! j))
                     (filter (\<lambda>kv. fst kv \<noteq> ''datum_id'') c)) k
           = map_of (kws ! j) k"
  proof (cases "k \<in> K")
    case True
    from True nk have ne: "k \<noteq> ''datum_id''" by auto
    from cols True j len have "is_int_cell (map_of (kws ! j) k)"
      by (simp add: list_all_length)
    then obtain n where m: "map_of (kws ! j) k = Some (IntV n)"
      by (cases "map_of (kws ! j) k" rule: is_int_cell.cases) simp_all
    show ?thesis
      using True cols m j len ne by (simp add: mm)
  next
    case False
    then have r: "map_of (kws ! j) k = None" using K by (simp add: map_of_eq_None_iff)
    have "k = ''datum_id'' \<or> map_of c k = None"
      using False kc by (auto simp: map_of_eq_None_iff)
    then show ?thesis using r by (auto simp: mm)
  qed
qed

lemma retrieve_row:
  assumes f: "fs (h5_path col u) = Some c" and h: "holds_rows c K ids kws"
    and dist: "distinct ids" and j: "j < length ids"
    and K: "fst ` set (kws ! j) = K"
    and u: "CHR ''/'' \<notin> set u" and gsh: "get_spec_handler u = Inr handler"
    and cache: "datum_cache u = None"
  shows "fst (retrieve fs col (u @ ''/'' @ ids ! j) datum_cache get_spec_handler logger)
           = Inr (handler (map_of (kws ! j)))"
proof -
  let ?cols = "filter (\<lambda>kv. fst kv \<noteq> ''datum_id'') c"
  from h have idc: "map_of c ''datum_id'' = Some (Dataset (Bytes 36) (map StrV ids))"
    by (simp add: holds_rows_def)
  have rt: "read_table fs (h5_path col u) = Inr \<lparr>index = ids, cols = ?cols\<rparr>"
    using f idc holds_rows_same_length[OF h] by (simp add: read_table_def decode_bytes_StrV)
  have lc: "loc \<lparr>index = ids, cols = ?cols\<rparr> (ids ! j) = Inr (map_of (kws ! j))"
    using positions_distinct[OF dist j]
    by (simp add: loc_def holds_rows_no_cast[OF h] holds_rows_row[OF h j K])
  have sp: "str_partition CHR ''/'' (u @ ''/'' @ ids ! j) = (u, ''/'', ids ! j)"
    using u by (simp add: str_partition_join)
  show ?thesis
    using sp gsh cache rt lc by (simp add: retrieve_def)
qed

lemma uuid_str_no_slash: "uuid_str s \<Longrightarrow> CHR ''/'' \<notin> set s"
  by (auto simp: uuid_str_def list_all_iff)

lemma uuid_str_length: "uuid_str s \<Longrightarrow> length s = 36"
  by (simp add: uuid_str_def)

lemma insert_datum_step:
  assumes uid: "uuid_str (doc_or_uid_to_uid res)"
    and dir: "datum_col \<in> dirs w" and ne: "datum_col \<noteq> []"
    and id: "uuid_str (uuid4 (drawn w))"
    and st: "table_state (files w) (h5_path datum_col (doc_or_uid_to_uid res)) K ids kws"
    and p: "plain_kwargs kw" and K: "fst ` set kw = K"
  shows "\<exists>w'. insert_datum uuid4 datum_col res did kw known_spec resource_col w =
           (Inr \<lparr>resource = doc_or_uid_to_uid res,
                 datum_id = doc_or_uid_to_uid res @ ''/'' @ uuid4 (drawn w),
                 datum_kwargs = kw\<rparr>, w')
         \<and> drawn w' = drawn w + 1 \<and> dirs w' = dirs w
         \<and> files w' (h5_path datum_col (doc_or_uid_to_uid res)) \<noteq> None
         \<and> (\<forall>q. q \<noteq> h5_path datum_col (doc_or_uid_to_uid res) \<longrightarrow> files w' q = files w q)
         \<and> table_state (files w') (h5_path datum_col (doc_or_uid_to_uid res)) K
              (ids @ [uuid4 (drawn w)]) (kws @ [kw])
         \<and> (files w (h5_path datum_col (doc_or_uid_to_uid res)) = None \<longrightarrow>
              bulk_register_datum_table uuid4 datum_col resource_col (doc_or_uid_to_uid res)
                (DataFrame [kw]) False w
                = (Inr [doc_or_uid_to_uid res @ ''/'' @ uuid4 (drawn w)], w'))"
proof (cases "files w (h5_path datum_col (doc_or_uid_to_uid res))")
  case None
  with st have e: "ids = []" "kws = []" and nk: "''datum_id'' \<notin> K"
    by (simp_all add: table_state_def)
  note u = uuid_str_no_slash[OF uid]
  note len = uuid_str_length[OF id]
  note d = plain_kwargs_distinct[OF p]
  note nk' = plain_kwargs_no_id[OF p]
  note iv = plain_kwargs_ints[OF p]
  have cols: "columns (DataFrame [kw]) = map (\<lambda>kv. (fst kv, [snd kv])) kw"
    by (rule columns_DataFrame_single[OF d])
  have d': "distinct (map fst (columns (DataFrame [kw])))"
    using d by (simp add: cols comp_def)
  have nk'': "''datum_id'' \<notin> fst ` set (columns (DataFrame [kw]))"
    using nk' by (force simp: cols)
  have ty: "\<forall>kv\<in>set kw. column_dtype [snd kv] = Int64"
    using iv by (simp add: column_dtype_def)
  then have ty': "\<forall>kv\<in>set (columns (DataFrame [kw])). column_dtype (snd kv) \<noteq> Object"
    by (auto simp: cols)
  have m: "map ((\<lambda>kv. (fst kv, Dataset (column_dtype (snd kv)) (snd kv)))
                  \<circ> (\<lambda>kv. (fst kv, [snd kv]))) kw
           = map (\<lambda>kv. (fst kv, Dataset Int64 [snd kv])) kw"
    using ty by simp
  have dir': "dirname (h5_path datum_col (doc_or_uid_to_uid res)) \<in> dirs w"
    using dir by (simp add: dirname_h5_path[OF u])
  have reg: "bulk_register_datum_table uuid4 datum_col resource_col (doc_or_uid_to_uid res)
                (DataFrame [kw]) False w
             = (Inr [doc_or_uid_to_uid res @ ''/'' @ uuid4 (drawn w)],
                w\<lparr>drawn := drawn w + 1,
                  files := (files w)(h5_path datum_col (doc_or_uid_to_uid res) \<mapsto>
                    map (\<lambda>kv. (fst kv, Dataset Int64 [snd kv])) kw
                      @ [(''datum_id'', Dataset (Bytes 36) [StrV (uuid4 (drawn w))])])\<rparr>)"
    by (simp add: bulk_register_fresh_columns[OF d' nk'' dir' ty'] nrows_DataFrame upt_single
        cols m ids_array_single[OF len])
  have ins: "insert_datum uuid4 datum_col res did kw known_spec resource_col w =
           (Inr \<lparr>resource = doc_or_uid_to_uid res,
                 datum_id = doc_or_uid_to_uid res @ ''/'' @ uuid4 (drawn w),
                 datum_kwargs = kw\<rparr>,
            w\<lparr>drawn := drawn w + 1,
              files := (files w)(h5_path datum_col (doc_or_uid_to_uid res) \<mapsto>
                map (\<lambda>kv. (fst kv, Dataset Int64 [snd kv])) kw
                  @ [(''datum_id'', Dataset (Bytes 36) [StrV (uuid4 (drawn w))])])\<rparr>)"
    by (rule insert_datum_first; fact)
  show ?thesis
    using ins holds_rows_first[OF p K, of "uuid4 (drawn w)"] e len reg
    by (simp add: table_state_def)
next
  case (Some c)
  with st have h: "holds_rows c K ids kws" by (simp add: table_state_def)
  then have idc: "map_of c ''datum_id'' = Some (Dataset (Bytes 36) (map StrV ids))"
    and nk: "''datum_id'' \<notin> K"
    and cols: "\<forall>k\<in>K. map_of c k = Some (Dataset Int64 (map (\<lambda>r. cell_object (map_of r k)) kws))"
    by (simp_all add: holds_rows_def)
  note u = uuid_str_no_slash[OF uid]
  note len = uuid_str_length[OF id]
  note d = plain_kwargs_distinct[OF p]
  note nk' = plain_kwargs_no_id[OF p]
  have iv: "\<forall>kv\<in>set kw. is_IntV (snd kv) \<and> (\<exists>vs. map_of c (fst kv) = Some (Dataset Int64 vs))"
  proof
    fix kv assume kv: "kv \<in> set kw"
    then have "fst kv \<in> K" using K by force
    with cols have "\<exists>vs. map_of c (fst kv) = Some (Dataset Int64 vs)" by simp
    with plain_kwargs_ints[OF p] kv
    show "is_IntV (snd kv) \<and> (\<exists>vs. map_of c (fst kv) = Some (Dataset Int64 vs))" by simp
  qed
  have "\<exists>c'. insert_datum uuid4 datum_col res did kw known_spec resource_col w =
           (Inr \<lparr>resource = doc_or_uid_to_uid res,
                 datum_id = doc_or_uid_to_uid res @ ''/'' @ uuid4 (drawn w),
                 datum_kwargs = kw\<rparr>,
            w\<lparr>drawn := drawn w + 1,
              files := (files w)(h5_path datum_col (doc_or_uid_to_uid res) \<mapsto> c')\<rparr>)
         \<and> map fst c' = map fst c
         \<and> (\<forall>k. map_of c' k =
                (if k = ''datum_id'' then Some (Dataset (Bytes 36) (map StrV ids @ [StrV (uuid4 (drawn w))]))
                 else case map_of kw k of None \<Rightarrow> map_of c k
                      | Some v \<Rightarrow> map_option (\<lambda>ds. Dataset Int64 (dset_data ds @ [v]))
                                   (map_of c k)))"
    by (rule insert_datum_append; fact)
  then obtain c' where r: "insert_datum uuid4 datum_col res did kw known_spec resource_col w =
           (Inr \<lparr>resource = doc_or_uid_to_uid res,
                 datum_id = doc_or_uid_to_uid res @ ''/'' @ uuid4 (drawn w),
                 datum_kwargs = kw\<rparr>,
            w\<lparr>drawn := drawn w + 1,
              files := (files w)(h5_path datum_col (doc_or_uid_to_uid res) \<mapsto> c')\<rparr>)"
    and keys: "map fst c' = map fst c"
    and vals: "\<forall>k. map_of c' k =
                (if k = ''datum_id'' then Some (Dataset (Bytes 36) (map StrV ids @ [StrV (uuid4 (drawn w))]))
                 else case map_of kw k of None \<Rightarrow> map_of c k
                      | Some v \<Rightarrow> map_option (\<lambda>ds. Dataset Int64 (dset_data ds @ [v]))
                                   (map_of c k))"
    by blast
  have "length (uuid4 (drawn w)) \<le> 36" using len by simp
  from holds_rows_append[OF h p K this keys vals]
  show ?thesis using r Some by (simp add: table_state_def)
qed

lemma insert_datum_seq_ok:
  assumes "uuid_str (doc_or_uid_to_uid res)" and "\<forall>i. uuid_str (uuid4 i)"
    and "datum_col \<in> dirs w"
    and "table_state (files w) (h5_path datum_col (doc_or_uid_to_uid res)) K ids kws"
    and "\<forall>call\<in>set calls. plain_kwargs (snd call) \<and> fst ` set (snd call) = K"
    and "datum_col \<noteq> []"
  shows "\<exists>ds w'. insert_datum_seq uuid4 datum_col res calls known_spec resource_col w = (Inr ds, w')
         \<and> map datum_id ds = map (\<lambda>i. doc_or_uid_to_uid res @ ''/'' @ uuid4 i)
                                  [drawn w ..< drawn w + length calls]
         \<and> map datum_kwargs ds = map snd calls
         \<and> table_state (files w') (h5_path datum_col (doc_or_uid_to_uid res)) K
              (ids @ map uuid4 [drawn w ..< drawn w + length calls]) (kws @ map snd calls)"
  using assms(3,4,5)
proof (induction calls arbitrary: w ids kws)
  case Nil
  then show ?case by simp
next
  case (Cons call calls)
  from Cons.prems(3) have p: "plain_kwargs (snd call)" and K: "fst ` set (snd call) = K"
    and rest: "\<forall>call\<in>set calls. plain_kwargs (snd call) \<and> fst ` set (snd call) = K"
    by simp_all
  from assms(2) have id: "uuid_str (uuid4 (drawn w))" by simp
  note uid = assms(1) and dir = Cons.prems(1) and st = Cons.prems(2) and ne = assms(6)
  have "\<exists>w'. insert_datum uuid4 datum_col res (fst call) (snd call) known_spec resource_col w =
           (Inr \<lparr>resource = doc_or_uid_to_uid res,
                 datum_id = doc_or_uid_to_uid res @ ''/'' @ uuid4 (drawn w),
                 datum_kwargs = snd call\<rparr>, w')
         \<and> drawn w' = drawn w + 1 \<and> dirs w' = dirs w
         \<and> files w' (h5_path datum_col (doc_or_uid_to_uid res)) \<noteq> None
         \<and> (\<forall>q. q \<noteq> h5_path datum_col (doc_or_uid_to_uid res) \<longrightarrow> files w' q = files w q)
         \<and> table_state (files w') (h5_path datum_col (doc_or_uid_to_uid res)) K
              (ids @ [uuid4 (drawn w)]) (kws @ [snd call])
         \<and> (files w (h5_path datum_col (doc_or_uid_to_uid res)) = None \<longrightarrow>
              bulk_register_datum_table uuid4 datum_col resource_col (doc_or_uid_to_uid res)
                (DataFrame [snd call]) False w
                = (Inr [doc_or_uid_to_uid res @ ''/'' @ uuid4 (drawn w)], w'))"
    by (rule insert_datum_step; fact)
  then obtain w1 where
    r1: "insert_datum uuid4 datum_col res (fst call) (snd call) known_spec resource_col w =
           (Inr \<lparr>resource = doc_or_uid_to_uid res,
                 datum_id = doc_or_uid_to_uid res @ ''/'' @ uuid4 (drawn w),
                 datum_kwargs = snd call\<rparr>, w1)"
    and dr: "drawn w1 = drawn w + 1" and dir1: "dirs w1 = dirs w"
    and st1: "table_state (files w1) (h5_path datum_col (doc_or_uid_to_uid res)) K
                (ids @ [uuid4 (drawn w)]) (kws @ [snd call])"
    by blast
  from dir dir1 have dir1': "datum_col \<in> dirs w1" by simp
  from Cons.IH[OF dir1' st1 rest] obtain ds w' where
    r2: "insert_datum_seq uuid4 datum_col res calls known_spec resource_col w1 = (Inr ds, w')"
    and ids2: "map datum_id ds = map (\<lambda>i. doc_or_uid_to_uid res @ ''/'' @ uuid4 i)
                                  [drawn w1 ..< drawn w1 + length calls]"
    and kw2: "map datum_kwargs ds = map snd calls"
    and st2: "table_state (files w') (h5_path datum_col (doc_or_uid_to_uid res)) K
              ((ids @ [uuid4 (drawn w)]) @ map uuid4 [drawn w1 ..< drawn w1 + length calls])
              ((kws @ [snd call]) @ map snd calls)"
    by blast
  have "[drawn w ..< drawn w + Suc (length calls)]
          = drawn w # [Suc (drawn w) ..< drawn w + Suc (length calls)]"
    by (rule upt_conv_Cons) simp
  then have upt: "[drawn w ..< Suc (drawn w + length calls)]
               = drawn w # [drawn w1 ..< drawn w1 + length calls]"
    by (simp add: dr del: upt_Suc)
  show ?case
    using r1 r2 ids2 kw2 st2 by (simp add: upt del: upt_Suc)
qed

subsection \<open>The fixture\<close>

lemma length_uuid_demo36: "length (uuid_demo36 n) = 36"
  by (simp add: uuid_demo36_def)

lemma hex_digit_mem:
  "m < 16 \<Longrightarrow> ''0123456789abcdef'' ! m \<in> set ''0123456789abcdef-''"
proof -
  assume "m < 16"
  then have "m < length ''0123456789abcdef''" by simp
  then have "''0123456789abcdef'' ! m \<in> set ''0123456789abcdef''" by (rule nth_mem)
  then show ?thesis by auto
qed

lemma uuid_demo36_str: "uuid_str (uuid_demo36 n)"
proof -
  have a: "''0123456789abcdef'' ! (n div 16 mod 16) \<in> set ''0123456789abcdef-''"
    by (rule hex_digit_mem) simp
  have b: "''0123456789abcdef'' ! (n mod 16) \<in> set ''0123456789abcdef-''"
    by (rule hex_digit_mem) simp
  show ?thesis
    unfolding uuid_str_def uuid_demo36_def using a b by simp
qed

lemma uid_demo_str: "uuid_str uid_demo"
  by (simp add: uuid_str_def uid_demo_def)

lemma uid_demo_no_slash: "CHR ''/'' \<notin> set uid_demo"
  by (rule uuid_str_no_slash[OF uid_demo_str])

lemmas run_defs = insert_datum_def bulk_insert_datum_def bulk_register_datum_table_def
  DataFrame_def Let_def world0_def uuid_demo_def h5_path_def append_def upt_rec
  column_of_def column_dtype_def ids_array_def h5_append_def dirname_def pathlib_path_def

subsection \<open>Insertion and retrieval\<close>

text \<open>
  C1, with the hypotheses it needs. The uid of the resource and the local ids generated
  are uuid strings; the directory of the store is named by a non-empty path and exists;
  the file of the resource is absent, or holds \<open>int64\<close> rows over the keys \<open>K\<close> under
  local ids in a dataset of width 36; the keyword arguments of every call have distinct
  plain keys, exactly the keys \<open>K\<close>, none of them \<open>datum_id\<close>, and \<open>int64\<close> values; the
  local ids held and generated are pairwise different. Then the \<open>N\<close> calls of
  \<open>insert_datum\<close> all return, the datum ids returned are \<open>uid/local\<close> for the \<open>N\<close> ids
  drawn and pairwise distinct, and \<open>retrieve\<close> of the \<open>i\<close>-th of them, with a registered
  handler and a cache that holds no table older than the files, applies the handler to
  the keyword arguments of the \<open>i\<close>-th call.
\<close>

theorem insert_datum_round_trip:
  assumes uid: "uuid_str (doc_or_uid_to_uid res)"
    and gen: "\<forall>i. uuid_str (uuid4 i)"
    and dir: "datum_col \<in> dirs w" and nonempty: "datum_col \<noteq> []"
    and start: "table_state (files w) (h5_path datum_col (doc_or_uid_to_uid res)) K ids0 kws0"
    and keys: "\<forall>call\<in>set calls. plain_kwargs (snd call) \<and> fst ` set (snd call) = K"
    and fresh: "distinct (ids0 @ map uuid4 [drawn w ..< drawn w + length calls])"
  shows "\<exists>ds w'. insert_datum_seq uuid4 datum_col res calls known_spec resource_col w = (Inr ds, w')
     \<and> length ds = length calls
     \<and> map datum_id ds = map (\<lambda>i. doc_or_uid_to_uid res @ ''/'' @ uuid4 i)
                              [drawn w ..< drawn w + length calls]
     \<and> distinct (map datum_id ds)
     \<and> (\<forall>i<length calls. \<forall>datum_cache get_spec_handler handler logger.
           get_spec_handler (doc_or_uid_to_uid res) = Inr handler
           \<and> coherent (files w') datum_col datum_cache \<longrightarrow>
           fst (retrieve (files w') datum_col (datum_id (ds ! i)) datum_cache
                  (get_spec_handler :: string \<Rightarrow> error + ((string \<rightharpoonup> val) \<Rightarrow> 'a))
                  (logger :: 'l))
             = Inr (handler (map_of (snd (calls ! i)))))"
proof -
  let ?u = "doc_or_uid_to_uid res"
  let ?p = "h5_path datum_col ?u"
  let ?n = "drawn w"
  let ?new = "map uuid4 [?n ..< ?n + length calls]"
  have "\<exists>ds w'. insert_datum_seq uuid4 datum_col res calls known_spec resource_col w = (Inr ds, w')
         \<and> map datum_id ds = map (\<lambda>i. ?u @ ''/'' @ uuid4 i) [?n ..< ?n + length calls]
         \<and> map datum_kwargs ds = map snd calls
         \<and> table_state (files w') ?p K (ids0 @ ?new) (kws0 @ map snd calls)"
    by (rule insert_datum_seq_ok; fact)
  then obtain ds w' where
    run: "insert_datum_seq uuid4 datum_col res calls known_spec resource_col w = (Inr ds, w')"
    and dids: "map datum_id ds = map (\<lambda>i. ?u @ ''/'' @ uuid4 i) [?n ..< ?n + length calls]"
    and st: "table_state (files w') ?p K (ids0 @ ?new) (kws0 @ map snd calls)"
    by blast
  note slash = uuid_str_no_slash[OF uid]
  have len: "length ds = length calls"
    using arg_cong[OF dids, of length] by simp
  have "distinct ?new" using fresh by simp
  moreover have "inj_on (\<lambda>d. ?u @ ''/'' @ d) (set ?new)" by (simp add: inj_on_def)
  ultimately have "distinct (map (\<lambda>d. ?u @ ''/'' @ d) ?new)"
    by (simp only: distinct_map)
  then have dist: "distinct (map datum_id ds)"
    by (simp add: dids comp_def)
  have ret: "fst (retrieve (files w') datum_col (datum_id (ds ! i)) datum_cache
                  get_spec_handler logger)
             = Inr (handler (map_of (snd (calls ! i))))"
    if i: "i < length calls" and gsh: "get_spec_handler ?u = Inr handler"
      and co: "coherent (files w') datum_col datum_cache"
    for i datum_cache and get_spec_handler :: "string \<Rightarrow> error + ((string \<rightharpoonup> val) \<Rightarrow> 'a)"
      and handler and logger :: 'l
  proof -
    from i have ne: "kws0 @ map snd calls \<noteq> []" by auto
    with st obtain c where f: "files w' ?p = Some c"
      and h: "holds_rows c K (ids0 @ ?new) (kws0 @ map snd calls)"
      by (auto simp: table_state_def split: option.splits)
    from h have "length (ids0 @ ?new) = length (kws0 @ map snd calls)"
      by (simp add: holds_rows_def)
    then have l0: "length ids0 = length kws0" by simp
    let ?j = "length ids0 + i"
    have j: "?j < length (ids0 @ ?new)" using i by simp
    have idj: "(ids0 @ ?new) ! ?j = uuid4 (?n + i)" using i by (simp add: nth_append)
    have kwj: "(kws0 @ map snd calls) ! ?j = snd (calls ! i)"
      using i l0 by (simp add: nth_append)
    from keys i have K: "fst ` set (snd (calls ! i)) = K"
      by (simp add: nth_mem)
    have "datum_id (ds ! i) = map datum_id ds ! i" using i len by simp
    also have "\<dots> = ?u @ ''/'' @ uuid4 (?n + i)" using i by (simp add: dids)
    finally have did: "datum_id (ds ! i) = ?u @ ''/'' @ (ids0 @ ?new) ! ?j"
      by (simp only: idj)
    have K': "fst ` set ((kws0 @ map snd calls) ! ?j) = K" by (simp only: kwj K)
    have "fst (retrieve (files w') datum_col (?u @ ''/'' @ (ids0 @ ?new) ! ?j) Map.empty
                 get_spec_handler logger)
            = Inr (handler (map_of ((kws0 @ map snd calls) ! ?j)))"
      by (rule retrieve_row[where fs = "files w'" and col = datum_col and u = ?u
            and get_spec_handler = get_spec_handler and datum_cache = Map.empty,
            OF f h fresh j K' slash gsh]) simp
    then show ?thesis
      by (simp only: did kwj retrieve_coherent_fst[OF co])
  qed
  show ?thesis
  proof (intro exI conjI allI impI)
    show "insert_datum_seq uuid4 datum_col res calls known_spec resource_col w = (Inr ds, w')"
      by (rule run)
    show "length ds = length calls" by (rule len)
    show "map datum_id ds = map (\<lambda>i. ?u @ ''/'' @ uuid4 i) [?n ..< ?n + length calls]"
      by (rule dids)
    show "distinct (map datum_id ds)" by (rule dist)
  next
    fix i datum_cache and get_spec_handler :: "string \<Rightarrow> error + ((string \<rightharpoonup> val) \<Rightarrow> 'a)"
      and handler and logger :: 'l
    assume "i < length calls"
      and "get_spec_handler ?u = Inr handler \<and> coherent (files w') datum_col datum_cache"
    then show "fst (retrieve (files w') datum_col (datum_id (ds ! i)) datum_cache
                  get_spec_handler logger)
             = Inr (handler (map_of (snd (calls ! i))))"
      using ret by blast
  qed
qed

text \<open>
  The scenario of the specification: \<open>insert_datum\<close> of \<open>{v: 10}\<close> and of \<open>{v: 20}\<close> on
  an empty store; \<open>retrieve\<close> on the two ids returns 10 and 20.
\<close>

theorem insert_datum_round_trip_witness:
  "uuid_str (doc_or_uid_to_uid (Uid uid_demo))
   \<and> uuid_str (uuid_demo36 0) \<and> uuid_str (uuid_demo36 1)
   \<and> ''db'' \<in> dirs world0 \<and> ''db'' \<noteq> []
   \<and> table_state (files world0) (h5_path ''db'' (doc_or_uid_to_uid (Uid uid_demo))) {''v''} [] []
   \<and> plain_kwargs [(''v'', IntV 10)] \<and> fst ` set [(''v'', IntV 10)] = {''v''}
   \<and> plain_kwargs [(''v'', IntV 20)] \<and> fst ` set [(''v'', IntV 20)] = {''v''}
   \<and> distinct [uuid_demo36 0, uuid_demo36 1]
   \<and> (\<exists>ds w'. insert_datum_seq uuid_demo36 ''db'' (Uid uid_demo)
                  [((), [(''v'', IntV 10)]), ((), [(''v'', IntV 20)])] () () world0 = (Inr ds, w')
         \<and> map datum_id ds = [uid_demo @ ''/'' @ uuid_demo36 0, uid_demo @ ''/'' @ uuid_demo36 1]
         \<and> distinct (map datum_id ds)
         \<and> fst (retrieve (files w') ''db'' (datum_id (ds ! 0)) Map.empty handler_demo ())
             = Inr (Some (IntV 10))
         \<and> fst (retrieve (files w') ''db'' (datum_id (ds ! 1)) Map.empty handler_demo ())
             = Inr (Some (IntV 20)))"
proof -
  let ?calls = "[((), [(''v'', IntV 10)]), ((), [(''v'', IntV 20)])]"
  have h1: "uuid_str (doc_or_uid_to_uid (Uid uid_demo))" by (simp add: uid_demo_str)
  have h2: "\<forall>i. uuid_str (uuid_demo36 i)" by (simp add: uuid_demo36_str)
  have hd: "''db'' \<in> dirs world0" by (simp add: world0_def)
  have hn: "''db'' \<noteq> []" by simp
  have h3: "table_state (files world0) (h5_path ''db'' (doc_or_uid_to_uid (Uid uid_demo))) {''v''} [] []"
    by (simp add: table_state_def world0_def)
  have p1: "plain_kwargs [(''v'', IntV 10)]" and p2: "plain_kwargs [(''v'', IntV 20)]"
    by (simp_all add: plain_kwargs_def plain_name_def)
  have h4: "\<forall>call\<in>set ?calls. plain_kwargs (snd call) \<and> fst ` set (snd call) = {''v''}"
    using p1 p2 by simp
  have d: "distinct [uuid_demo36 0, uuid_demo36 1]"
    by (simp add: uuid_demo36_def)
  have upt: "[drawn world0 ..< drawn world0 + length ?calls] = [0, 1]"
    by (simp add: world0_def upt_rec)
  have h5: "distinct ([] @ map uuid_demo36 [drawn world0 ..< drawn world0 + length ?calls])"
    using d by (simp only: upt) simp
  from insert_datum_round_trip[OF h1 h2 hd hn h3 h4 h5, of "()" "()"]
  obtain ds w' where
    run: "insert_datum_seq uuid_demo36 ''db'' (Uid uid_demo) ?calls () () world0 = (Inr ds, w')"
    and ids: "map datum_id ds = map (\<lambda>i. doc_or_uid_to_uid (Uid uid_demo) @ ''/'' @ uuid_demo36 i)
                                  [drawn world0 ..< drawn world0 + length ?calls]"
    and dist: "distinct (map datum_id ds)"
    and ret: "\<forall>i<length ?calls. \<forall>datum_cache get_spec_handler handler logger.
           get_spec_handler (doc_or_uid_to_uid (Uid uid_demo)) = Inr handler
           \<and> coherent (files w') ''db'' datum_cache \<longrightarrow>
           fst (retrieve (files w') ''db'' (datum_id (ds ! i)) datum_cache
                  (get_spec_handler :: string \<Rightarrow> error + ((string \<rightharpoonup> val) \<Rightarrow> val option))
                  (logger :: unit))
             = Inr (handler (map_of (snd (?calls ! i))))"
    by blast
  have ids': "map datum_id ds = [uid_demo @ ''/'' @ uuid_demo36 0, uid_demo @ ''/'' @ uuid_demo36 1]"
    using ids by (simp only: upt) simp
  have g: "handler_demo (doc_or_uid_to_uid (Uid uid_demo)) = Inr (\<lambda>row. row ''v'')
           \<and> coherent (files w') ''db'' Map.empty"
    by (simp add: handler_demo_def coherent_def)
  have r0: "fst (retrieve (files w') ''db'' (datum_id (ds ! 0)) Map.empty handler_demo ())
             = Inr (Some (IntV 10))"
    using ret[rule_format, of 0 handler_demo "\<lambda>row. row ''v''" Map.empty "()"] g by simp
  have r1: "fst (retrieve (files w') ''db'' (datum_id (ds ! 1)) Map.empty handler_demo ())
             = Inr (Some (IntV 20))"
    using ret[rule_format, of 1 handler_demo "\<lambda>row. row ''v''" Map.empty "()"] g by simp
  show ?thesis
    using h1 uuid_demo36_str hd h3 p1 p2 d run ids' dist r0 r1 by simp
qed

text \<open>
  C1 as stated fails. With keyword arguments that use the name \<open>datum_id\<close> the one-row
  table has a column \<open>datum_id\<close>, the dataset of generated ids cannot be created under
  the same name and the first call raises: no datum id is returned. And a cache filled by
  a \<open>retrieve\<close> between two calls keeps the one-row table: \<open>retrieve\<close> of the second
  datum id with that cache ends in the \<open>KeyError\<close> of the row lookup.
\<close>

theorem insert_datum_round_trip_fails:
  "fst (insert_datum_seq uuid_demo36 ''db'' (Uid uid_demo) [((), [(''datum_id'', IntV 7)])] () ()
          world0)
     = Inl ValueError
   \<and> fst (insert_datum uuid_demo36 ''db'' (Uid uid_demo) () [(''v'', IntV 20)] () ()
           (snd (insert_datum uuid_demo36 ''db'' (Uid uid_demo) () [(''v'', IntV 10)] () () world0)))
     = Inr \<lparr>resource = uid_demo, datum_id = uid_demo @ ''/'' @ uuid_demo36 1,
            datum_kwargs = [(''v'', IntV 20)]\<rparr>
   \<and> fst (retrieve
           (files (snd (insert_datum uuid_demo36 ''db'' (Uid uid_demo) () [(''v'', IntV 20)] () ()
              (snd (insert_datum uuid_demo36 ''db'' (Uid uid_demo) () [(''v'', IntV 10)] () ()
                      world0)))))
           ''db'' (uid_demo @ ''/'' @ uuid_demo36 1)
           (snd (retrieve
              (files (snd (insert_datum uuid_demo36 ''db'' (Uid uid_demo) () [(''v'', IntV 10)] () ()
                            world0)))
              ''db'' (uid_demo @ ''/'' @ uuid_demo36 0) Map.empty handler_demo ()))
           handler_demo ())
     = Inl KeyError"
  by (simp add: run_defs retrieve_def read_table_def loc_def handler_demo_def row_cast_def
      uid_demo_def uuid_demo36_def)

text \<open>
  C3, with the hypotheses it needs. Under the hypotheses of C1 on the uid, the local ids,
  the directory, the file and the keyword arguments, one call of \<open>insert_datum\<close> returns
  the datum whose id is the uid, a \<open>/\<close> and the local id it drew; it draws one id and
  changes no other file. When the file of the resource did not exist, the state reached
  is the one of \<open>bulk_register_datum_table\<close> on the one-row table, which returned this one
  datum id. In both cases the file then holds the rows it held and the new row, in every
  column.
\<close>

theorem insert_datum_paths:
  assumes uid: "uuid_str (doc_or_uid_to_uid res)"
    and gen: "\<forall>i. uuid_str (uuid4 i)"
    and dir: "datum_col \<in> dirs w" and nonempty: "datum_col \<noteq> []"
    and st: "table_state (files w) (h5_path datum_col (doc_or_uid_to_uid res)) K ids kws"
    and p: "plain_kwargs kw" and K: "fst ` set kw = K"
  shows "\<exists>w'. insert_datum uuid4 datum_col res did kw known_spec resource_col w =
           (Inr \<lparr>resource = doc_or_uid_to_uid res,
                 datum_id = doc_or_uid_to_uid res @ ''/'' @ uuid4 (drawn w),
                 datum_kwargs = kw\<rparr>, w')
         \<and> drawn w' = drawn w + 1 \<and> dirs w' = dirs w
         \<and> files w' (h5_path datum_col (doc_or_uid_to_uid res)) \<noteq> None
         \<and> (\<forall>q. q \<noteq> h5_path datum_col (doc_or_uid_to_uid res) \<longrightarrow> files w' q = files w q)
         \<and> table_state (files w') (h5_path datum_col (doc_or_uid_to_uid res)) K
              (ids @ [uuid4 (drawn w)]) (kws @ [kw])
         \<and> (files w (h5_path datum_col (doc_or_uid_to_uid res)) = None \<longrightarrow>
              bulk_register_datum_table uuid4 datum_col resource_col (doc_or_uid_to_uid res)
                (DataFrame [kw]) False w
                = (Inr [doc_or_uid_to_uid res @ ''/'' @ uuid4 (drawn w)], w'))"
proof -
  from gen have id: "uuid_str (uuid4 (drawn w))" by simp
  show ?thesis by (rule insert_datum_step; fact)
qed

text \<open>
  The two paths at the scenario of the specification: the first call writes the file by
  the single-row registration, the second appends to it.
\<close>

theorem insert_datum_paths_witness:
  "uuid_str (doc_or_uid_to_uid (Uid uid_demo)) \<and> uuid_str (uuid_demo36 0)
   \<and> ''db'' \<in> dirs world0 \<and> ''db'' \<noteq> []
   \<and> table_state (files world0) (h5_path ''db'' (doc_or_uid_to_uid (Uid uid_demo))) {''v''} [] []
   \<and> plain_kwargs [(''v'', IntV 10)] \<and> fst ` set [(''v'', IntV 10)] = {''v''}
   \<and> fst (insert_datum uuid_demo36 ''db'' (Uid uid_demo) () [(''v'', IntV 10)] () () world0)
       = Inr \<lparr>resource = uid_demo, datum_id = uid_demo @ ''/'' @ uuid_demo36 0,
              datum_kwargs = [(''v'', IntV 10)]\<rparr>
   \<and> files (snd (insert_datum uuid_demo36 ''db'' (Uid uid_demo) () [(''v'', IntV 10)] () () world0))
         (h5_path ''db'' uid_demo)
       = Some [(''v'', Dataset Int64 [IntV 10]),
               (''datum_id'', Dataset (Bytes 36) [StrV (uuid_demo36 0)])]
   \<and> fst (insert_datum uuid_demo36 ''db'' (Uid uid_demo) () [(''v'', IntV 20)] () ()
            \<lparr>dirs = {''db''}, files = [h5_path ''db'' uid_demo \<mapsto>
                        [(''v'', Dataset Int64 [IntV 10]),
                         (''datum_id'', Dataset (Bytes 36) [StrV (uuid_demo36 0)])]],
             drawn = 1, handling = None\<rparr>)
       = Inr \<lparr>resource = uid_demo, datum_id = uid_demo @ ''/'' @ uuid_demo36 1,
              datum_kwargs = [(''v'', IntV 20)]\<rparr>"
proof -
  let ?p = "h5_path ''db'' (doc_or_uid_to_uid (Uid uid_demo))"
  let ?w1 = "\<lparr>dirs = {''db''}, files = [h5_path ''db'' uid_demo \<mapsto>
                        [(''v'', Dataset Int64 [IntV 10]),
                         (''datum_id'', Dataset (Bytes 36) [StrV (uuid_demo36 0)])]],
             drawn = 1, handling = None\<rparr>"
  have h1: "uuid_str (doc_or_uid_to_uid (Uid uid_demo))" by (simp add: uid_demo_str)
  have h2: "\<forall>i. uuid_str (uuid_demo36 i)" by (simp add: uuid_demo36_str)
  have hd: "''db'' \<in> dirs world0" and hd': "''db'' \<in> dirs ?w1" by (simp_all add: world0_def)
  have hn: "''db'' \<noteq> []" by simp
  have h3: "table_state (files world0) ?p {''v''} [] []"
    by (simp add: table_state_def world0_def)
  have h3': "table_state (files ?w1) ?p {''v''} [uuid_demo36 0] [[(''v'', IntV 10)]]"
    by (simp add: table_state_def holds_rows_def length_uuid_demo36 insert_commute)
  have p1: "plain_kwargs [(''v'', IntV 10)]" and p2: "plain_kwargs [(''v'', IntV 20)]"
    by (simp_all add: plain_kwargs_def plain_name_def)
  have k1: "fst ` set [(''v'', IntV 10)] = {''v''}" and k2: "fst ` set [(''v'', IntV 20)] = {''v''}"
    by simp_all
  from insert_datum_paths[OF h1 h2 hd hn h3 p1 k1, of "()" "()" "()"]
  obtain w' where a: "insert_datum uuid_demo36 ''db'' (Uid uid_demo) () [(''v'', IntV 10)] () () world0
      = (Inr \<lparr>resource = doc_or_uid_to_uid (Uid uid_demo),
               datum_id = doc_or_uid_to_uid (Uid uid_demo) @ ''/'' @ uuid_demo36 (drawn world0),
               datum_kwargs = [(''v'', IntV 10)]\<rparr>, w')"
    and ts: "table_state (files w') ?p {''v''} ([] @ [uuid_demo36 (drawn world0)])
               ([] @ [[(''v'', IntV 10)]])"
    and ne: "files w' ?p \<noteq> None"
    by blast
  from ne obtain c where c: "files w' ?p = Some c" by auto
  with ts have hr: "holds_rows c {''v''} [uuid_demo36 0] [[(''v'', IntV 10)]]"
    by (simp add: table_state_def world0_def)
  from insert_datum_paths[OF h1 h2 hd' hn h3' p2 k2, of "()" "()" "()"]
  obtain w'' where b: "insert_datum uuid_demo36 ''db'' (Uid uid_demo) () [(''v'', IntV 20)] () () ?w1
      = (Inr \<lparr>resource = doc_or_uid_to_uid (Uid uid_demo),
               datum_id = doc_or_uid_to_uid (Uid uid_demo) @ ''/'' @ uuid_demo36 (drawn ?w1),
               datum_kwargs = [(''v'', IntV 20)]\<rparr>, w'')"
    by blast
  have f: "files (snd (insert_datum uuid_demo36 ''db'' (Uid uid_demo) () [(''v'', IntV 10)] () () world0))
         (h5_path ''db'' uid_demo)
       = Some [(''v'', Dataset Int64 [IntV 10]),
               (''datum_id'', Dataset (Bytes 36) [StrV (uuid_demo36 0)])]"
    using uid_demo_no_slash
    by (simp add: insert_datum_def bulk_register_datum_table_def DataFrame_def Let_def world0_def
        upt_rec column_of_def column_dtype_def ids_array_def length_uuid_demo36
        dirname_h5_path pathlib_path_def)
  show ?thesis
    using h1 uuid_demo36_str hd h3 p1 k1 a b f by (simp add: world0_def)
qed

text \<open>
  C3 as stated fails: not every call returns a datum. A string value makes a column of
  dtype \<open>object\<close>, for which no dataset can be created; keyword arguments that use the
  name \<open>datum_id\<close> take the name of the dataset of ids; a uid with a \<open>/\<close> names a file
  in a directory that does not exist. Each of the three calls raises.
\<close>

theorem insert_datum_may_raise:
  "fst (insert_datum uuid_demo36 ''db'' (Uid uid_demo) () [(''name'', StrV ''abc'')] () () world0)
     = Inl TypeError
   \<and> fst (insert_datum uuid_demo36 ''db'' (Uid uid_demo) () [(''datum_id'', IntV 7)] () () world0)
     = Inl ValueError
   \<and> fst (insert_datum uuid_demo36 ''db'' (Uid ''a/b'') () [(''v'', IntV 1)] () () world0)
     = Inl FileNotFoundError"
  by (simp add: run_defs uid_demo_def uuid_demo36_def)

subsection \<open>The validate flag\<close>

text \<open>
  C8, as far as it holds. With \<open>validate\<close> set, \<open>bulk_register_datum_table\<close> raises for
  every input before it draws an id or opens a file: the state is returned as it was and
  nothing is returned normally. What it raises is the exception that the caller is
  handling, and a \<open>RuntimeError\<close> when there is none.
\<close>

theorem bulk_register_validate_raises:
  "bulk_register_datum_table uuid4 datum_col resource_col resource_uid dkwargs_table True w
     = (Inl (case handling w of None \<Rightarrow> RuntimeError | Some e \<Rightarrow> e), w)"
  by (simp add: bulk_register_datum_table_def)

text \<open>
  C8 as stated fails: the call does not report that the option is not supported, and what
  it reports is not fixed by its arguments. Called while a \<open>KeyError\<close> is handled it
  raises that \<open>KeyError\<close>; called otherwise it raises a \<open>RuntimeError\<close>.
\<close>

theorem bulk_register_validate_reraises:
  "fst (bulk_register_datum_table uuid_demo ''db'' () ''r''
         \<lparr>nrows = 1, columns = [(''v'', [IntV 1])]\<rparr> True (world0\<lparr>handling := Some KeyError\<rparr>))
     = Inl KeyError
   \<and> fst (bulk_register_datum_table uuid_demo ''db'' () ''r''
         \<lparr>nrows = 1, columns = [(''v'', [IntV 1])]\<rparr> True world0)
     = Inl RuntimeError"
  by (simp add: bulk_register_datum_table_def world0_def)

subsection \<open>A second bulk insertion\<close>

lemma columns_DataFrame_ints:
  assumes "\<forall>r\<in>set kws. plain_kwargs r \<and> fst ` set r = K"
    and "kv \<in> set (columns (DataFrame kws))"
  shows "column_dtype (snd kv) = Int64"
proof -
  from assms(2) obtain k where k: "k \<in> set (concat (map (map fst) kws))"
    and kv: "kv = (k, column_of (map (\<lambda>r. map_of r k) kws))"
    by (auto simp: DataFrame_def set_first_seen)
  from k obtain r where "r \<in> set kws" and "k \<in> fst ` set r" by auto
  with assms(1) have ne: "kws \<noteq> []" and kK: "k \<in> K" by auto
  have "list_all is_int_cell (map (\<lambda>r. map_of r k) kws)"
  proof -
    have "\<forall>r\<in>set kws. is_int_cell (map_of r k)"
    proof
      fix r assume r: "r \<in> set kws"
      with assms(1) kK have "plain_kwargs r" and "k \<in> fst ` set r" by auto
      from plain_kwargs_cell[OF this] show "is_int_cell (map_of r k)" by auto
    qed
    then show ?thesis by (simp add: list_all_iff)
  qed
  then have ia: "list_all is_int_cell (map (\<lambda>r. map_of r k) kws)" .
  have ne': "map (\<lambda>r. map_of r k) kws \<noteq> []" using ne by simp
  have "column_dtype (map cell_object (map (\<lambda>r. map_of r k) kws)) = Int64"
    by (rule column_dtype_ints[OF ne' ia])
  then show ?thesis
    by (simp only: kv snd_conv column_of_ints[OF ia])
qed

text \<open>
  C2, as the code has it. The file is opened for writing, which replaces it; nothing tests
  whether it exists. For a resource whose uid is a uuid string and whose file exists in an
  existing directory, and rows with distinct plain keys, the same in every row and none of
  them \<open>datum_id\<close>, and \<open>int64\<close> values, \<open>bulk_insert_datum\<close> returns one new datum id
  for every row, and the file then holds the new rows alone.
\<close>

theorem bulk_insert_datum_overwrites:
  assumes uid: "uuid_str (doc_or_uid_to_uid res)"
    and dir: "col \<in> dirs w"
    and ex: "files w (h5_path col (doc_or_uid_to_uid res)) = Some c"
    and keys: "\<forall>r\<in>set datum_kwarg_list. plain_kwargs r \<and> fst ` set r = K"
  shows "bulk_insert_datum uuid4 col res datum_ids datum_kwarg_list w =
           (Inr (map (\<lambda>d. doc_or_uid_to_uid res @ ''/'' @ d)
                     (map uuid4 [drawn w ..< drawn w + length datum_kwarg_list])),
            w\<lparr>drawn := drawn w + length datum_kwarg_list,
              files := (files w)(h5_path col (doc_or_uid_to_uid res) \<mapsto>
                map (\<lambda>kv. (fst kv, Dataset Int64 (snd kv))) (columns (DataFrame datum_kwarg_list))
                  @ [(''datum_id'',
                      ids_array (map uuid4 [drawn w ..< drawn w + length datum_kwarg_list]))])\<rparr>)"
proof -
  have d': "distinct (map fst (columns (DataFrame datum_kwarg_list)))"
    by (simp add: keys_DataFrame distinct_first_seen)
  have "set (map fst (columns (DataFrame datum_kwarg_list)))
          = set (concat (map (map fst) datum_kwarg_list))"
    by (simp only: keys_DataFrame set_first_seen)
  moreover have "''datum_id'' \<notin> set (concat (map (map fst) datum_kwarg_list))"
  proof
    assume "''datum_id'' \<in> set (concat (map (map fst) datum_kwarg_list))"
    then obtain r where r: "r \<in> set datum_kwarg_list" and "''datum_id'' \<in> fst ` set r"
      by auto
    moreover from keys r have "plain_kwargs r" by simp
    ultimately show False using plain_kwargs_no_id by blast
  qed
  ultimately have nk': "''datum_id'' \<notin> fst ` set (columns (DataFrame datum_kwarg_list))"
    by simp
  have ty: "\<forall>kv\<in>set (columns (DataFrame datum_kwarg_list)). column_dtype (snd kv) = Int64"
    using columns_DataFrame_ints[OF keys] by blast
  then have ty': "\<forall>kv\<in>set (columns (DataFrame datum_kwarg_list)). column_dtype (snd kv) \<noteq> Object"
    by simp
  have m: "map (\<lambda>kv. (fst kv, Dataset (column_dtype (snd kv)) (snd kv)))
               (columns (DataFrame datum_kwarg_list))
           = map (\<lambda>kv. (fst kv, Dataset Int64 (snd kv))) (columns (DataFrame datum_kwarg_list))"
    using ty by simp
  have dir': "dirname (h5_path col (doc_or_uid_to_uid res)) \<in> dirs w"
    using dir by (simp add: dirname_h5_path[OF uuid_str_no_slash[OF uid]])
  show ?thesis
    using bulk_register_fresh_columns[OF d' nk' dir' ty', of uuid4 "None :: unit option"]
    by (simp add: bulk_insert_datum_def nrows_DataFrame m)
qed

text \<open>A file of two rows replaced by a table of one row.\<close>

theorem bulk_insert_datum_overwrites_witness:
  "uuid_str (doc_or_uid_to_uid (Uid uid_demo))
   \<and> ''db'' \<in> dirs \<lparr>dirs = {''db''}, files = [h5_path ''db'' uid_demo \<mapsto>
                        [(''v'', Dataset Int64 [IntV 1, IntV 2]),
                         (''datum_id'', Dataset (Bytes 36)
                            [StrV (uuid_demo36 0), StrV (uuid_demo36 1)])]],
             drawn = 2, handling = None\<rparr>
   \<and> plain_kwargs [(''v'', IntV 3)] \<and> fst ` set [(''v'', IntV 3)] = {''v''}
   \<and> fst (bulk_insert_datum uuid_demo36 ''db'' (Uid uid_demo) () [[(''v'', IntV 3)]]
            \<lparr>dirs = {''db''}, files = [h5_path ''db'' uid_demo \<mapsto>
                        [(''v'', Dataset Int64 [IntV 1, IntV 2]),
                         (''datum_id'', Dataset (Bytes 36)
                            [StrV (uuid_demo36 0), StrV (uuid_demo36 1)])]],
             drawn = 2, handling = None\<rparr>)
       = Inr [uid_demo @ ''/'' @ uuid_demo36 2]
   \<and> files (snd (bulk_insert_datum uuid_demo36 ''db'' (Uid uid_demo) () [[(''v'', IntV 3)]]
            \<lparr>dirs = {''db''}, files = [h5_path ''db'' uid_demo \<mapsto>
                        [(''v'', Dataset Int64 [IntV 1, IntV 2]),
                         (''datum_id'', Dataset (Bytes 36)
                            [StrV (uuid_demo36 0), StrV (uuid_demo36 1)])]],
             drawn = 2, handling = None\<rparr>)) (h5_path ''db'' uid_demo)
       = Some [(''v'', Dataset Int64 [IntV 3]),
               (''datum_id'', Dataset (Bytes 36) [StrV (uuid_demo36 2)])]"
proof -
  let ?w = "\<lparr>dirs = {''db''}, files = [h5_path ''db'' uid_demo \<mapsto>
                        [(''v'', Dataset Int64 [IntV 1, IntV 2]),
                         (''datum_id'', Dataset (Bytes 36)
                            [StrV (uuid_demo36 0), StrV (uuid_demo36 1)])]],
             drawn = 2, handling = None\<rparr>"
  have h1: "uuid_str (doc_or_uid_to_uid (Uid uid_demo))" by (simp add: uid_demo_str)
  have h3: "files ?w (h5_path ''db'' (doc_or_uid_to_uid (Uid uid_demo)))
              = Some [(''v'', Dataset Int64 [IntV 1, IntV 2]),
                      (''datum_id'', Dataset (Bytes 36)
                         [StrV (uuid_demo36 0), StrV (uuid_demo36 1)])]"
    by simp
  have hd: "''db'' \<in> dirs ?w" by simp
  have p: "plain_kwargs [(''v'', IntV 3)]" by (simp add: plain_kwargs_def plain_name_def)
  have h4: "\<forall>r\<in>set [[(''v'', IntV 3)]]. plain_kwargs r \<and> fst ` set r = {''v''}"
    using p by simp
  have upt: "[drawn ?w ..< drawn ?w + length [[(''v'', IntV 3)]]] = [2]"
    by (simp add: upt_rec)
  show ?thesis
    using h1 p bulk_insert_datum_overwrites[OF h1 hd h3 h4, of uuid_demo36 "()"]
    by (simp add: upt DataFrame_def column_of_def ids_array_def length_uuid_demo36)
qed

text \<open>
  C2 as stated fails: the second \<open>bulk_insert_datum\<close> on the same resource returns an id.
\<close>

theorem bulk_insert_twice_succeeds:
  "fst (bulk_insert_datum uuid_demo ''db'' (Uid ''r'') () [[(''v'', IntV 3)]]
          (snd (bulk_insert_datum uuid_demo ''db'' (Uid ''r'') ()
                  [[(''v'', IntV 1)], [(''v'', IntV 2)]] world0)))
     = Inr [''r/uuu'']"
  by (simp add: run_defs)

end
